theory Spec2Isabelle
  imports Complex_Main "HOL-Library.Word"
begin

section \<open>Data model of the pattern scanner\<close>

text \<open>
  The embedding follows \<^verbatim>\<open>PatternScanning.hpp\<close> and \<^verbatim>\<open>PatternScanning.cpp\<close>.
  A \<^verbatim>\<open>uint8_t\<close> is an 8-bit word, a \<^verbatim>\<open>uintptr_t\<close> a 64-bit word (addition wraps), a
  \<^verbatim>\<open>size_t\<close> that counts bytes of a buffer is a natural number, and the C++ \<^verbatim>\<open>int\<close> of the
  table builders is an integer (pattern lengths stay far below \<open>2^31\<close>).

  A \<^verbatim>\<open>const uint8_t* data\<close> is \<open>None\<close> for the null pointer and \<open>Some d\<close> for a pointer to
  the readable block \<open>d\<close>; the \<^verbatim>\<open>size\<close> argument is passed separately, as in the source.
  Every indexed read goes through \<open>rd\<close>, which has no value outside the vector or block, so
  a function that would read out of range returns \<open>None\<close>.
\<close>

type_synonym byte = "8 word"
type_synonym uintptr = "64 word"

record Pattern =
  bytes :: "byte list"
  mask_v :: "bool list"

definition Size :: "Pattern \<Rightarrow> nat" where
  "Size p = length (bytes p)"

definition IsValid :: "Pattern \<Rightarrow> bool" where
  "IsValid p \<longleftrightarrow> bytes p \<noteq> [] \<and> length (bytes p) = length (mask_v p)"

text \<open>\<^verbatim>\<open>Pattern(const std::vector<uint8_t>&, const std::vector<bool>&)\<close>\<close>

definition Pattern_of :: "byte list \<Rightarrow> bool list \<Rightarrow> Pattern" where
  "Pattern_of bs ms =
     (if length bs \<noteq> length ms then \<lparr>bytes = [], mask_v = []\<rparr>
      else \<lparr>bytes = bs, mask_v = ms\<rparr>)"

record ScanResult =
  address :: uintptr
  offset :: nat
  found :: bool

text \<open>The two constructors of \<^verbatim>\<open>ScanResult\<close>.\<close>

definition ScanResult_none :: ScanResult where
  "ScanResult_none = \<lparr>address = 0, offset = 0, found = False\<rparr>"

definition ScanResult_at :: "uintptr \<Rightarrow> nat \<Rightarrow> ScanResult" where
  "ScanResult_at addr off = \<lparr>address = addr, offset = off, found = True\<rparr>"

definition rd :: "'a list \<Rightarrow> nat \<Rightarrow> 'a option" where
  "rd xs k = (if k < length xs then Some (xs ! k) else None)"

section \<open>SimpleScanner\<close>

text \<open>
  \<^verbatim>\<open>MatchesPattern\<close>: the loop over \<open>i\<close>, started at \<open>i\<close>. The mask is read first and the
  buffer only where the mask is set, as \<^verbatim>\<open>&&\<close> does.
\<close>

function MatchesPattern_from :: "Pattern \<Rightarrow> byte list \<Rightarrow> nat \<Rightarrow> nat \<Rightarrow> bool option" where
  "MatchesPattern_from p d off i =
     (if i < Size p then
        (case rd (mask_v p) i of
           None \<Rightarrow> None
         | Some mk \<Rightarrow>
             if mk then
               (case rd d (off + i) of
                  None \<Rightarrow> None
                | Some x \<Rightarrow>
                    (case rd (bytes p) i of
                       None \<Rightarrow> None
                     | Some b \<Rightarrow>
                         if x \<noteq> b then Some False
                         else MatchesPattern_from p d off (i + 1)))
             else MatchesPattern_from p d off (i + 1))
      else Some True)"
  by pat_completeness auto
termination
  by (relation "measure (\<lambda>(p, d, off, i). Size p - i)") auto

declare MatchesPattern_from.simps [simp del]

definition MatchesPattern :: "Pattern \<Rightarrow> byte list \<Rightarrow> nat \<Rightarrow> bool option" where
  "MatchesPattern p d off = MatchesPattern_from p d off 0"

text \<open>The loop of \<^verbatim>\<open>SimpleScanner::Scan\<close> over \<open>i \<le> size - pattern.Size()\<close>, started at \<open>i\<close>.\<close>

function SimpleScan_from :: "Pattern \<Rightarrow> byte list \<Rightarrow> nat \<Rightarrow> uintptr \<Rightarrow> nat \<Rightarrow> ScanResult option" where
  "SimpleScan_from p d lastoff base i =
     (if i \<le> lastoff then
        (case MatchesPattern p d i of
           None \<Rightarrow> None
         | Some m \<Rightarrow>
             if m then Some (ScanResult_at (base + of_nat i) i)
             else SimpleScan_from p d lastoff base (i + 1))
      else Some ScanResult_none)"
  by pat_completeness auto
termination
  by (relation "measure (\<lambda>(p, d, lastoff, base, i). lastoff + 1 - i)") auto

declare SimpleScan_from.simps [simp del]

definition SimpleScanner_Scan ::
  "Pattern \<Rightarrow> byte list option \<Rightarrow> nat \<Rightarrow> uintptr \<Rightarrow> ScanResult option" where
  "SimpleScanner_Scan p data sz base =
     (case data of
        None \<Rightarrow> Some ScanResult_none
      | Some d \<Rightarrow>
          if \<not> IsValid p \<or> sz < Size p then Some ScanResult_none
          else SimpleScan_from p d (sz - Size p) base 0)"

text \<open>\<^verbatim>\<open>SimpleScanner::ScanAll\<close>: the same loop, collecting every hit.\<close>

function SimpleScanAll_from ::
  "Pattern \<Rightarrow> byte list \<Rightarrow> nat \<Rightarrow> uintptr \<Rightarrow> nat \<Rightarrow> ScanResult list \<Rightarrow> ScanResult list option" where
  "SimpleScanAll_from p d lastoff base i results =
     (if i \<le> lastoff then
        (case MatchesPattern p d i of
           None \<Rightarrow> None
         | Some m \<Rightarrow>
             SimpleScanAll_from p d lastoff base (i + 1)
               (if m then results @ [ScanResult_at (base + of_nat i) i] else results))
      else Some results)"
  by pat_completeness auto
termination
  by (relation "measure (\<lambda>(p, d, lastoff, base, i, results). lastoff + 1 - i)") auto

declare SimpleScanAll_from.simps [simp del]

definition SimpleScanner_ScanAll ::
  "Pattern \<Rightarrow> byte list option \<Rightarrow> nat \<Rightarrow> uintptr \<Rightarrow> ScanResult list option" where
  "SimpleScanner_ScanAll p data sz base =
     (case data of
        None \<Rightarrow> Some []
      | Some d \<Rightarrow>
          if \<not> IsValid p \<or> sz < Size p then Some []
          else SimpleScanAll_from p d (sz - Size p) base 0 [])"

text \<open>
  The masked match predicate of the specification at offset \<open>i\<close>: every position whose
  mask entry is set holds the pattern's byte.
\<close>

definition match_at :: "Pattern \<Rightarrow> byte list \<Rightarrow> nat \<Rightarrow> bool" where
  "match_at p d i \<longleftrightarrow>
     (\<forall>j \<in> set [0..<Size p]. mask_v p ! j \<longrightarrow> d ! (i + j) = bytes p ! j)"

section \<open>SIMDScanner\<close>

text \<open>The inner loop of \<^verbatim>\<open>FastScan\<close> over \<open>j\<close>, with its \<^verbatim>\<open>break\<close> at the first difference.\<close>

function FastScan_match :: "byte list \<Rightarrow> byte list \<Rightarrow> nat \<Rightarrow> nat \<Rightarrow> bool option" where
  "FastScan_match bs d i j =
     (if j < length bs then
        (case rd d (i + j) of
           None \<Rightarrow> None
         | Some x \<Rightarrow>
             (case rd bs j of
                None \<Rightarrow> None
              | Some b \<Rightarrow> if x \<noteq> b then Some False else FastScan_match bs d i (j + 1)))
      else Some True)"
  by pat_completeness auto
termination
  by (relation "measure (\<lambda>(bs, d, i, j). length bs - j)") auto

declare FastScan_match.simps [simp del]

function FastScan_from :: "byte list \<Rightarrow> byte list \<Rightarrow> nat \<Rightarrow> uintptr \<Rightarrow> nat \<Rightarrow> ScanResult option" where
  "FastScan_from bs d lastoff base i =
     (if i \<le> lastoff then
        (case FastScan_match bs d i 0 of
           None \<Rightarrow> None
         | Some m \<Rightarrow>
             if m then Some (ScanResult_at (base + of_nat i) i)
             else FastScan_from bs d lastoff base (i + 1))
      else Some ScanResult_none)"
  by pat_completeness auto
termination
  by (relation "measure (\<lambda>(bs, d, lastoff, base, i). lastoff + 1 - i)") auto

declare FastScan_from.simps [simp del]

definition FastScan :: "byte list \<Rightarrow> byte list option \<Rightarrow> nat \<Rightarrow> uintptr \<Rightarrow> ScanResult option" where
  "FastScan bs data sz base =
     (case data of
        None \<Rightarrow> Some ScanResult_none
      | Some d \<Rightarrow>
          if bs = [] \<or> sz < length bs then Some ScanResult_none
          else FastScan_from bs d (sz - length bs) base 0)"

section \<open>Advanced::FuzzyScan\<close>

record FuzzyResult =
  fz_address :: uintptr
  fz_offset :: nat
  similarity :: rat
  fz_found :: bool

definition FuzzyResult_none :: FuzzyResult where
  "FuzzyResult_none = \<lparr>fz_address = 0, fz_offset = 0, similarity = 0, fz_found = False\<rparr>"

definition FuzzyResult_at :: "uintptr \<Rightarrow> nat \<Rightarrow> rat \<Rightarrow> FuzzyResult" where
  "FuzzyResult_at addr off sim =
     \<lparr>fz_address = addr, fz_offset = off, similarity = sim, fz_found = True\<rparr>"

text \<open>
  The inner loop over \<open>j\<close> at offset \<open>i\<close>; the state is \<open>(matches, totalChecks)\<close>.
\<close>

function Fuzzy_count :: "Pattern \<Rightarrow> byte list \<Rightarrow> nat \<Rightarrow> nat \<Rightarrow> int \<times> int \<Rightarrow> (int \<times> int) option" where
  "Fuzzy_count p d i j (matches, totalChecks) =
     (if j < Size p then
        (case rd (mask_v p) j of
           None \<Rightarrow> None
         | Some mk \<Rightarrow>
             if mk then
               (case rd d (i + j) of
                  None \<Rightarrow> None
                | Some x \<Rightarrow>
                    (case rd (bytes p) j of
                       None \<Rightarrow> None
                     | Some b \<Rightarrow>
                         Fuzzy_count p d i (j + 1)
                           (if x = b then matches + 1 else matches, totalChecks + 1)))
             else Fuzzy_count p d i (j + 1) (matches, totalChecks))
      else Some (matches, totalChecks))"
  by pat_completeness auto
termination
  by (relation "measure (\<lambda>(p, d, i, j, c). Size p - j)") auto

declare Fuzzy_count.simps [simp del]

text \<open>
  The loop over the offsets. A \<^verbatim>\<open>float\<close> is a rational number here (the threshold is
  neither NaN nor infinite), and \<open>fdiv matches totalChecks\<close> stands for the single-precision
  quotient \<^verbatim>\<open>static_cast<float>(matches) / totalChecks\<close>, whose rounding the embedding
  leaves open: the theorems below hold for every \<open>fdiv\<close>.
  The state is \<open>(bestSimilarity, bestOffset)\<close>.
\<close>

function FuzzyScan_from ::
  "(int \<Rightarrow> int \<Rightarrow> rat) \<Rightarrow> Pattern \<Rightarrow> byte list \<Rightarrow> nat \<Rightarrow> rat \<Rightarrow> uintptr \<Rightarrow> nat \<Rightarrow> rat \<times> nat
     \<Rightarrow> FuzzyResult option" where
  "FuzzyScan_from fdiv p d lastoff threshold base i (bestSimilarity, bestOffset) =
     (if i \<le> lastoff then
        (case Fuzzy_count p d i 0 (0, 0) of
           None \<Rightarrow> None
         | Some (matches, totalChecks) \<Rightarrow>
             if totalChecks > 0 then
               (if fdiv matches totalChecks \<ge> threshold
                then Some (FuzzyResult_at (base + of_nat i) i (fdiv matches totalChecks))
                else FuzzyScan_from fdiv p d lastoff threshold base (i + 1)
                       (if fdiv matches totalChecks > bestSimilarity
                        then (fdiv matches totalChecks, i)
                        else (bestSimilarity, bestOffset)))
             else FuzzyScan_from fdiv p d lastoff threshold base (i + 1)
                    (bestSimilarity, bestOffset))
      else if bestSimilarity > 0
           then Some (FuzzyResult_at (base + of_nat bestOffset) bestOffset bestSimilarity)
           else Some FuzzyResult_none)"
  by pat_completeness auto
termination
  by (relation "measure (\<lambda>(fdiv, p, d, lastoff, threshold, base, i, b). lastoff + 1 - i)") auto

declare FuzzyScan_from.simps [simp del]

definition FuzzyScan ::
  "(int \<Rightarrow> int \<Rightarrow> rat) \<Rightarrow> Pattern \<Rightarrow> byte list option \<Rightarrow> nat \<Rightarrow> rat \<Rightarrow> uintptr
     \<Rightarrow> FuzzyResult option" where
  "FuzzyScan fdiv p data sz threshold base =
     (case data of
        None \<Rightarrow> Some FuzzyResult_none
      | Some d \<Rightarrow>
          if \<not> IsValid p \<or> sz < Size p \<or> threshold < 0 \<or> threshold > 1
          then Some FuzzyResult_none
          else FuzzyScan_from fdiv p d (sz - Size p) threshold base 0 (0, 0))"

text \<open>
  The similarity of the specification at offset \<open>i\<close>, stated on the pattern and the buffer
  alone: the number of positions with the mask set where the buffer holds the pattern's
  byte, over the number of positions with the mask set.
\<close>

definition matching_positions :: "Pattern \<Rightarrow> byte list \<Rightarrow> nat \<Rightarrow> nat" where
  "matching_positions p d i =
     length (filter (\<lambda>j. mask_v p ! j \<and> d ! (i + j) = bytes p ! j) [0..<Size p])"

definition checked_positions :: "Pattern \<Rightarrow> nat" where
  "checked_positions p = length (filter (\<lambda>j. mask_v p ! j) [0..<Size p])"

definition spec_similarity :: "Pattern \<Rightarrow> byte list \<Rightarrow> nat \<Rightarrow> rat" where
  "spec_similarity p d i = of_nat (matching_positions p d i) / of_nat (checked_positions p)"

text \<open>
  What the analysis of \<^verbatim>\<open>FuzzyScan\<close> needs of the single-precision quotient \<open>fdiv\<close>: for a
  count \<open>a \<ge> 0\<close> over a count \<open>b > 0\<close> it is not negative, and it is positive exactly when
  \<open>a\<close> is. (IEEE division rounds to nearest and the counts are below \<open>2^31\<close>, so a positive
  quotient does not round to zero.)
\<close>

definition fdiv_sign_ok :: "(int \<Rightarrow> int \<Rightarrow> rat) \<Rightarrow> bool" where
  "fdiv_sign_ok fdiv \<longleftrightarrow>
     (\<forall>a b. 0 \<le> a \<and> 0 < b \<longrightarrow> 0 \<le> fdiv a b \<and> (0 < fdiv a b \<longleftrightarrow> 0 < a))"

text \<open>The exact quotient, which the single-precision one equals wherever it is representable.\<close>

definition exact_div :: "int \<Rightarrow> int \<Rightarrow> rat" where
  "exact_div a b = of_int a / of_int b"

section \<open>Advanced::AnalyzeMemory\<close>

record MemoryStats =
  totalSize :: nat
  executableSize :: nat
  writableSize :: nat
  mostCommonBytes :: "byte list"
  commonPatterns :: "Pattern list"
  entropy :: real

text \<open>The histogram loop \<^verbatim>\<open>byteFreq[data[i]]++\<close>.\<close>

function count_freq :: "byte list \<Rightarrow> nat \<Rightarrow> nat \<Rightarrow> int list \<Rightarrow> int list option" where
  "count_freq d sz i byteFreq =
     (if i < sz then
        (case rd d i of
           None \<Rightarrow> None
         | Some x \<Rightarrow>
             (case rd byteFreq (unat x) of
                None \<Rightarrow> None
              | Some c \<Rightarrow> count_freq d sz (i + 1) (byteFreq[unat x := c + 1])))
      else Some byteFreq)"
  by pat_completeness auto
termination
  by (relation "measure (\<lambda>(d, sz, i, byteFreq). sz - i)") auto

declare count_freq.simps [simp del]

text \<open>Shannon entropy over the buckets, in the reals (the source computes in \<^verbatim>\<open>double\<close>).\<close>

definition shannon :: "int list \<Rightarrow> nat \<Rightarrow> real" where
  "shannon byteFreq sz =
     fold (\<lambda>freq e. if freq > 0
                     then e - (real_of_int freq / real sz) * log 2 (real_of_int freq / real sz)
                     else e)
       byteFreq 0"

definition sortedBytes_of :: "int list \<Rightarrow> (byte \<times> int) list" where
  "sortedBytes_of byteFreq =
     map (\<lambda>i. (of_nat i, byteFreq ! i)) (filter (\<lambda>i. byteFreq ! i > 0) [0..<256])"

text \<open>
  \<open>std_sort\<close> stands for \<^verbatim>\<open>std::sort\<close> with the comparator \<^verbatim>\<open>a.second > b.second\<close>, which
  leaves the order of equal counts to the implementation.
\<close>

definition AnalyzeMemory ::
  "((byte \<times> int) list \<Rightarrow> (byte \<times> int) list) \<Rightarrow> byte list option \<Rightarrow> nat \<Rightarrow> MemoryStats option" where
  "AnalyzeMemory std_sort data sz =
     (let stats = \<lparr>totalSize = sz, executableSize = 0, writableSize = 0,
                   mostCommonBytes = [], commonPatterns = [], entropy = 0\<rparr>
      in case data of
           None \<Rightarrow> Some stats
         | Some d \<Rightarrow>
             if sz = 0 then Some stats
             else (case count_freq d sz 0 (replicate 256 0) of
                     None \<Rightarrow> None
                   | Some byteFreq \<Rightarrow>
                       Some (stats\<lparr>entropy := shannon byteFreq sz,
                                   mostCommonBytes :=
                                     map fst (take 10 (std_sort (sortedBytes_of byteFreq)))\<rparr>)))"

section \<open>Pattern strings\<close>

text \<open>
  \<^verbatim>\<open>iss >> token\<close> skips white space (the six characters of \<^verbatim>\<open>isspace\<close> in the C locale)
  and reads up to the next white space; it fails when only white space is left.
\<close>

definition isspace :: "char \<Rightarrow> bool" where
  "isspace c \<longleftrightarrow> c = CHR '' '' \<or> (9 \<le> (of_char c :: nat) \<and> (of_char c :: nat) \<le> 13)"

definition next_token :: "string \<Rightarrow> (string \<times> string) option" where
  "next_token s =
     (if dropWhile isspace s = [] then None
      else Some (takeWhile (\<lambda>c. \<not> isspace c) (dropWhile isspace s),
                 dropWhile (\<lambda>c. \<not> isspace c) (dropWhile isspace s)))"

definition isdigit :: "char \<Rightarrow> bool" where
  "isdigit c \<longleftrightarrow> 48 \<le> (of_char c :: nat) \<and> (of_char c :: nat) \<le> 57"

definition is_upper_hex :: "char \<Rightarrow> bool" where
  "is_upper_hex c \<longleftrightarrow> 65 \<le> (of_char c :: nat) \<and> (of_char c :: nat) \<le> 70"

definition is_lower_hex :: "char \<Rightarrow> bool" where
  "is_lower_hex c \<longleftrightarrow> 97 \<le> (of_char c :: nat) \<and> (of_char c :: nat) \<le> 102"

definition isxdigit :: "char \<Rightarrow> bool" where
  "isxdigit c \<longleftrightarrow> isdigit c \<or> is_upper_hex c \<or> is_lower_hex c"

definition hexval :: "char \<Rightarrow> nat" where
  "hexval c =
     (if isdigit c then of_char c - 48
      else if is_upper_hex c then of_char c - 55
      else of_char c - 87)"

text \<open>
  \<^verbatim>\<open>std::stoul(token, nullptr, 16)\<close>, that is \<^verbatim>\<open>strtoul\<close> in base 16: leading white space,
  an optional sign, an optional \<^verbatim>\<open>0x\<close> or \<^verbatim>\<open>0X\<close> in front of a hexadecimal digit, then the
  longest run of hexadecimal digits; whatever follows is ignored. \<open>None\<close> is the exception:
  \<^verbatim>\<open>std::invalid_argument\<close> when there is no digit, \<^verbatim>\<open>std::out_of_range\<close> when the value
  exceeds \<open>ulong_max\<close>. A minus sign negates the value in \<^verbatim>\<open>unsigned long\<close>. The width of
  \<^verbatim>\<open>unsigned long\<close> is the platform's, so \<open>ulong_max\<close> is a parameter.
\<close>

definition stoul16 :: "nat \<Rightarrow> string \<Rightarrow> nat option" where
  "stoul16 ulong_max s =
     (let s0 = dropWhile isspace s;
          neg = (s0 \<noteq> [] \<and> hd s0 = CHR ''-'');
          s1 = (if s0 \<noteq> [] \<and> (hd s0 = CHR ''-'' \<or> hd s0 = CHR ''+'') then tl s0 else s0);
          s2 = (if 3 \<le> length s1 \<and> s1 ! 0 = CHR ''0'' \<and> (s1 ! 1 = CHR ''x'' \<or> s1 ! 1 = CHR ''X'')
                   \<and> isxdigit (s1 ! 2)
                then drop 2 s1 else s1);
          digits = takeWhile isxdigit s2;
          v = fold (\<lambda>c acc. acc * 16 + hexval c) digits 0
      in if digits = [] then None
         else if v > ulong_max then None
         else Some (if neg then (ulong_max + 1 - v) mod (ulong_max + 1) else v))"

text \<open>
  The tokens that the loop \<^verbatim>\<open>while (iss >> token)\<close> sees, in order, when it runs to the
  end of the stream.
\<close>

function tokens_of :: "string \<Rightarrow> string list" where
  "tokens_of s =
     (case next_token s of
        None \<Rightarrow> []
      | Some (token, rest) \<Rightarrow> token # tokens_of rest)"
  by pat_completeness auto
termination
proof (relation "measure length")
  show "wf (measure (length :: string \<Rightarrow> nat))"
    by simp
next
  fix s :: string and x2 token rest
  assume a: "next_token s = Some x2" and x2: "(token, rest) = x2"
  then have ne: "dropWhile isspace s \<noteq> []"
    and r: "rest = dropWhile (\<lambda>c. \<not> isspace c) (dropWhile isspace s)"
    by (auto simp: next_token_def split: if_splits)
  from ne have "\<not> isspace (hd (dropWhile isspace s))"
    by (rule hd_dropWhile)
  with ne have "length (dropWhile (\<lambda>c. \<not> isspace c) (dropWhile isspace s))
                  < length (dropWhile isspace s)"
    by (cases "dropWhile isspace s") (auto simp: less_Suc_eq_le length_dropWhile_le)
  also have "\<dots> \<le> length s"
    by (rule length_dropWhile_le)
  finally show "(rest, s) \<in> measure length"
    using r by simp
qed

declare tokens_of.simps [simp del]

text \<open>
  \<^verbatim>\<open>Pattern::Pattern(const std::string&)\<close>: the token loop over the tokens still to come,
  with the bytes and the mask built so far. An exception of \<^verbatim>\<open>stoul\<close> clears both and
  leaves the loop.
\<close>

fun Pattern_parse :: "nat \<Rightarrow> string list \<Rightarrow> byte list \<Rightarrow> bool list \<Rightarrow> Pattern" where
  "Pattern_parse ulong_max [] bs ms = \<lparr>bytes = bs, mask_v = ms\<rparr>"
| "Pattern_parse ulong_max (token # rest) bs ms =
     (if token = ''?'' \<or> token = ''??''
      then Pattern_parse ulong_max rest (bs @ [0]) (ms @ [False])
      else (case stoul16 ulong_max token of
              None \<Rightarrow> \<lparr>bytes = [], mask_v = []\<rparr>
            | Some v \<Rightarrow> Pattern_parse ulong_max rest (bs @ [of_nat v]) (ms @ [True])))"

definition Pattern_of_string :: "nat \<Rightarrow> string \<Rightarrow> Pattern" where
  "Pattern_of_string ulong_max s = Pattern_parse ulong_max (tokens_of s) [] []"

text \<open>\<^verbatim>\<open>PatternUtils::IsValidPatternString\<close>: the token loop, then the function.\<close>

fun valid_tokens :: "nat \<Rightarrow> string list \<Rightarrow> bool" where
  "valid_tokens ulong_max [] = True"
| "valid_tokens ulong_max (token # rest) =
     (if token = ''?'' \<or> token = ''??'' then valid_tokens ulong_max rest
      else if length token = 0 \<or> length token > 3 then False
      else if \<exists>c \<in> set token. \<not> isdigit c \<and> \<not> is_upper_hex c \<and> \<not> is_lower_hex c then False
      else (case stoul16 ulong_max token of
              None \<Rightarrow> False
            | Some v \<Rightarrow> if v > 255 then False else valid_tokens ulong_max rest))"

definition IsValidPatternString :: "nat \<Rightarrow> string \<Rightarrow> bool" where
  "IsValidPatternString ulong_max s =
     (if s = [] then False else valid_tokens ulong_max (tokens_of s))"

text \<open>
  The token rule of the specification: a token is \<^verbatim>\<open>?\<close>, \<^verbatim>\<open>??\<close>, or hexadecimal digits
  only with a value from 0 to 255.
\<close>

definition spec_token_ok :: "string \<Rightarrow> bool" where
  "spec_token_ok t \<longleftrightarrow>
     t = ''?'' \<or> t = ''??'' \<or>
     (t \<noteq> [] \<and> list_all isxdigit t \<and> fold (\<lambda>c acc. acc * 16 + hexval c) t 0 \<le> 255)"

section \<open>BoyerMooreScanner\<close>

record BoyerMooreScanner =
  bm_pattern :: Pattern
  badCharTable :: "int list"
  goodSuffixTable :: "int list"

text \<open>A read at an \<^verbatim>\<open>int\<close> index.\<close>

definition ix :: "'a list \<Rightarrow> int \<Rightarrow> 'a option" where
  "ix xs k = (if 0 \<le> k \<and> k < int (length xs) then Some (xs ! nat k) else None)"

text \<open>
  \<^verbatim>\<open>BuildBadCharTable\<close>: the loop over \<open>i < pattern_.Size() - 1\<close>, on the table resized to
  256 entries of the pattern length. (The constructor calls it for a valid pattern only,
  so the subtraction does not wrap.)
\<close>

function BadChar_from :: "Pattern \<Rightarrow> nat \<Rightarrow> int list \<Rightarrow> int list option" where
  "BadChar_from p i t =
     (if i < Size p - 1 then
        (case rd (mask_v p) i of
           None \<Rightarrow> None
         | Some mk \<Rightarrow>
             if mk then
               (case rd (bytes p) i of
                  None \<Rightarrow> None
                | Some b \<Rightarrow>
                    if unat b < length t
                    then BadChar_from p (i + 1) (t[unat b := int (Size p - 1 - i)])
                    else None)
             else BadChar_from p (i + 1) t)
      else Some t)"
  by pat_completeness auto
termination
  by (relation "measure (\<lambda>(p, i, t). Size p - 1 - i)") auto

declare BadChar_from.simps [simp del]

definition BuildBadCharTable :: "Pattern \<Rightarrow> int list option" where
  "BuildBadCharTable p = BadChar_from p 0 (replicate 256 (int (Size p)))"

text \<open>
  \<^verbatim>\<open>BuildGoodSuffixTable\<close>. The state of the good-suffix table is a pair: the vector, and
  the indices at which the code reached for \<^verbatim>\<open>goodSuffixTable_\<close> outside the vector, in
  order. \<^verbatim>\<open>operator[]\<close> does not check its index, so the run goes on after such an access;
  the statement \<^verbatim>\<open>if (goodSuffixTable_[k] == patternLength) goodSuffixTable_[k] = v\<close> then
  reads and perhaps writes one slot beyond the vector and leaves the vector itself as it is.
\<close>

definition gs_fill :: "int \<Rightarrow> int \<Rightarrow> int \<Rightarrow> int list \<times> int list \<Rightarrow> int list \<times> int list" where
  "gs_fill m k v st =
     (case ix (fst st) k of
        None \<Rightarrow> (fst st, snd st @ [k])
      | Some x \<Rightarrow> (if x = m then (fst st)[nat k := v] else fst st, snd st))"

text \<open>
  The condition of the inner \<^verbatim>\<open>while\<close>, evaluated from left to right with the short
  circuits of \<^verbatim>\<open>&&\<close> and \<^verbatim>\<open>||\<close>; \<open>None\<close> is a read outside the mask or the bytes.
\<close>

definition gs_cond :: "Pattern \<Rightarrow> int \<Rightarrow> int \<Rightarrow> int \<Rightarrow> bool option" where
  "gs_cond p m i j =
     (if j \<le> m then
        (if j = m then Some True
         else (case ix (mask_v p) (i - 1) of
                 None \<Rightarrow> None
               | Some mi \<Rightarrow>
                   if \<not> mi then Some True
                   else (case ix (mask_v p) (j - 1) of
                           None \<Rightarrow> None
                         | Some mj \<Rightarrow>
                             if \<not> mj then Some True
                             else (case ix (bytes p) (i - 1) of
                                     None \<Rightarrow> None
                                   | Some bi \<Rightarrow>
                                       (case ix (bytes p) (j - 1) of
                                          None \<Rightarrow> None
                                        | Some bj \<Rightarrow> Some (bi \<noteq> bj))))))
      else Some False)"

text \<open>
  The inner \<^verbatim>\<open>while\<close>: it follows \<^verbatim>\<open>borderTable\<close> and need not stop on an arbitrary
  table, so \<open>None\<close> is also the run that never leaves the loop.
\<close>

partial_function (option) gs_inner ::
  "Pattern \<Rightarrow> int \<Rightarrow> int list \<Rightarrow> int \<Rightarrow> int \<Rightarrow> int list \<times> int list
     \<Rightarrow> (int \<times> int list \<times> int list) option" where
  "gs_inner p m borderTable i j st =
     (case gs_cond p m i j of
        None \<Rightarrow> None
      | Some c \<Rightarrow>
          if c then
            (case ix borderTable j of
               None \<Rightarrow> None
             | Some j' \<Rightarrow> gs_inner p m borderTable i j' (gs_fill m (j - 1) (j - i) st))
          else Some (j, st))"

declare gs_inner.simps [code]

text \<open>The outer \<^verbatim>\<open>while (i > 0)\<close>.\<close>

function gs_outer ::
  "Pattern \<Rightarrow> int \<Rightarrow> int \<Rightarrow> int \<Rightarrow> int list \<Rightarrow> int list \<times> int list
     \<Rightarrow> (int \<times> int list \<times> int list \<times> int list) option" where
  "gs_outer p m i j borderTable st =
     (if i > 0 then
        (case gs_inner p m borderTable i j st of
           None \<Rightarrow> None
         | Some r \<Rightarrow>
             if i - 1 < int (length borderTable)
             then gs_outer p m (i - 1) (fst r - 1) (borderTable[nat (i - 1) := fst r - 1]) (snd r)
             else None)
      else Some (j, borderTable, st))"
  by pat_completeness auto
termination
  by (relation "measure (\<lambda>(p, m, i, j, borderTable, st). nat i)") auto

declare gs_outer.simps [simp del]

text \<open>The completion loop \<^verbatim>\<open>for (i = 0; i <= patternLength; i++)\<close>.\<close>

function gs_complete ::
  "int \<Rightarrow> int list \<Rightarrow> int \<Rightarrow> int \<Rightarrow> int list \<times> int list \<Rightarrow> (int list \<times> int list) option" where
  "gs_complete m borderTable i j st =
     (if i \<le> m then
        (if i = j then
           (case ix borderTable j of
              None \<Rightarrow> None
            | Some j' \<Rightarrow> gs_complete m borderTable (i + 1) j' (gs_fill m i j st))
         else gs_complete m borderTable (i + 1) j (gs_fill m i j st))
      else Some st)"
  by pat_completeness auto
termination
  by (relation "measure (\<lambda>(m, borderTable, i, j, st). nat (m + 1 - i))") auto

declare gs_complete.simps [simp del]

text \<open>
  The whole function: the result is the table and the out-of-range indices, or \<open>None\<close>
  when the run reads outside another vector or does not return.
\<close>

definition BuildGoodSuffixTable :: "Pattern \<Rightarrow> (int list \<times> int list) option" where
  "BuildGoodSuffixTable p =
     (case gs_outer p (int (Size p)) (int (Size p)) (int (Size p) + 1)
             ((replicate (Size p + 1) 0)[Size p := int (Size p) + 1])
             (replicate (Size p) (int (Size p)), []) of
        None \<Rightarrow> None
      | Some r \<Rightarrow>
          (case ix (fst (snd r)) 0 of
             None \<Rightarrow> None
           | Some j \<Rightarrow> gs_complete (int (Size p)) (fst (snd r)) 0 j (snd (snd r))))"

text \<open>
  The constructor: the tables of a valid pattern, no tables otherwise. It returns the
  scanner together with the out-of-range indices of the good-suffix construction.
\<close>

definition BoyerMooreScanner_new :: "Pattern \<Rightarrow> (BoyerMooreScanner \<times> int list) option" where
  "BoyerMooreScanner_new p =
     (if IsValid p then
        (case BuildBadCharTable p of
           None \<Rightarrow> None
         | Some bc \<Rightarrow>
             (case BuildGoodSuffixTable p of
                None \<Rightarrow> None
              | Some gs \<Rightarrow>
                  Some (\<lparr>bm_pattern = p, badCharTable = bc, goodSuffixTable = fst gs\<rparr>, snd gs)))
      else Some (\<lparr>bm_pattern = p, badCharTable = [], goodSuffixTable = []\<rparr>, []))"

text \<open>The right-to-left comparison at one alignment; the result is the final \<open>j\<close>.\<close>

function bm_compare :: "Pattern \<Rightarrow> byte list \<Rightarrow> nat \<Rightarrow> int \<Rightarrow> int option" where
  "bm_compare p d shift j =
     (if j \<ge> 0 then
        (case ix (mask_v p) j of
           None \<Rightarrow> None
         | Some mj \<Rightarrow>
             if \<not> mj then bm_compare p d shift (j - 1)
             else (case ix (bytes p) j of
                     None \<Rightarrow> None
                   | Some b \<Rightarrow>
                       (case rd d (shift + nat j) of
                          None \<Rightarrow> None
                        | Some x \<Rightarrow> if b = x then bm_compare p d shift (j - 1) else Some j)))
      else Some j)"
  by pat_completeness auto
termination
  by (relation "measure (\<lambda>(p, d, shift, j). nat (j + 1))") auto

declare bm_compare.simps [simp del]

text \<open>\<^verbatim>\<open>shift += k\<close> for a \<^verbatim>\<open>size_t shift\<close> and an \<^verbatim>\<open>int k\<close>: the sum wraps at \<open>2^64\<close>.\<close>

definition size_add :: "nat \<Rightarrow> int \<Rightarrow> nat" where
  "size_add shift k = nat ((int shift + k) mod 2 ^ 64)"

text \<open>The shift after a mismatch at \<open>j\<close>: the larger of the two heuristics.\<close>

definition bm_mismatch_shift :: "BoyerMooreScanner \<Rightarrow> byte list \<Rightarrow> nat \<Rightarrow> int \<Rightarrow> int option" where
  "bm_mismatch_shift s d shift j =
     (case rd d (shift + nat j) of
        None \<Rightarrow> None
      | Some x \<Rightarrow>
          (case rd (badCharTable s) (unat x) of
             None \<Rightarrow> None
           | Some bc \<Rightarrow>
               (case ix (goodSuffixTable s) j of
                  None \<Rightarrow> None
                | Some goodSuffixShift \<Rightarrow>
                    Some (if bc - int (Size (bm_pattern s)) + 1 + j > goodSuffixShift
                          then bc - int (Size (bm_pattern s)) + 1 + j
                          else goodSuffixShift))))"

text \<open>
  The loops of \<^verbatim>\<open>Scan\<close> and \<^verbatim>\<open>ScanAll\<close>. They stop only if the tables shift forward, so
  \<open>None\<close> is a read out of range or a run that never returns.
\<close>

partial_function (option) bm_scan_loop ::
  "BoyerMooreScanner \<Rightarrow> byte list \<Rightarrow> nat \<Rightarrow> uintptr \<Rightarrow> nat \<Rightarrow> ScanResult option" where
  "bm_scan_loop s d textLength base shift =
     (if shift \<le> textLength - Size (bm_pattern s) then
        (case bm_compare (bm_pattern s) d shift (int (Size (bm_pattern s)) - 1) of
           None \<Rightarrow> None
         | Some j \<Rightarrow>
             if j < 0 then Some (ScanResult_at (base + of_nat shift) shift)
             else (case bm_mismatch_shift s d shift j of
                     None \<Rightarrow> None
                   | Some k \<Rightarrow> bm_scan_loop s d textLength base (size_add shift k)))
      else Some ScanResult_none)"

declare bm_scan_loop.simps [code]

definition BoyerMooreScanner_Scan ::
  "BoyerMooreScanner \<Rightarrow> byte list option \<Rightarrow> nat \<Rightarrow> uintptr \<Rightarrow> ScanResult option" where
  "BoyerMooreScanner_Scan s data sz base =
     (case data of
        None \<Rightarrow> Some ScanResult_none
      | Some d \<Rightarrow>
          if \<not> IsValid (bm_pattern s) \<or> sz < Size (bm_pattern s) then Some ScanResult_none
          else bm_scan_loop s d sz base 0)"

partial_function (option) bm_scanall_loop ::
  "BoyerMooreScanner \<Rightarrow> byte list \<Rightarrow> nat \<Rightarrow> uintptr \<Rightarrow> nat \<Rightarrow> ScanResult list
     \<Rightarrow> ScanResult list option" where
  "bm_scanall_loop s d textLength base shift results =
     (if shift \<le> textLength - Size (bm_pattern s) then
        (case bm_compare (bm_pattern s) d shift (int (Size (bm_pattern s)) - 1) of
           None \<Rightarrow> None
         | Some j \<Rightarrow>
             if j < 0 then
               (if shift + Size (bm_pattern s) < textLength then
                  (case ix (goodSuffixTable s) 0 of
                     None \<Rightarrow> None
                   | Some g0 \<Rightarrow>
                       bm_scanall_loop s d textLength base (size_add shift g0)
                         (results @ [ScanResult_at (base + of_nat shift) shift]))
                else bm_scanall_loop s d textLength base (size_add shift 1)
                       (results @ [ScanResult_at (base + of_nat shift) shift]))
             else (case bm_mismatch_shift s d shift j of
                     None \<Rightarrow> None
                   | Some k \<Rightarrow> bm_scanall_loop s d textLength base (size_add shift k) results))
      else Some results)"

declare bm_scanall_loop.simps [code]

definition BoyerMooreScanner_ScanAll ::
  "BoyerMooreScanner \<Rightarrow> byte list option \<Rightarrow> nat \<Rightarrow> uintptr \<Rightarrow> ScanResult list option" where
  "BoyerMooreScanner_ScanAll s data sz base =
     (case data of
        None \<Rightarrow> Some []
      | Some d \<Rightarrow>
          if \<not> IsValid (bm_pattern s) \<or> sz < Size (bm_pattern s) then Some []
          else bm_scanall_loop s d sz base 0 [])"

text \<open>A scanner constructed from a pattern, then used for one scan.\<close>

definition BoyerMoore_Scan ::
  "Pattern \<Rightarrow> byte list option \<Rightarrow> nat \<Rightarrow> uintptr \<Rightarrow> ScanResult option" where
  "BoyerMoore_Scan p data sz base =
     (case BoyerMooreScanner_new p of
        None \<Rightarrow> None
      | Some r \<Rightarrow> BoyerMooreScanner_Scan (fst r) data sz base)"

definition BoyerMoore_ScanAll ::
  "Pattern \<Rightarrow> byte list option \<Rightarrow> nat \<Rightarrow> uintptr \<Rightarrow> ScanResult list option" where
  "BoyerMoore_ScanAll p data sz base =
     (case BoyerMooreScanner_new p of
        None \<Rightarrow> None
      | Some r \<Rightarrow> BoyerMooreScanner_ScanAll (fst r) data sz base)"

text \<open>
  Two tables for the analysis of \<^verbatim>\<open>BuildGoodSuffixTable\<close> on a pattern of length \<open>m\<close>:
  the border table once the outer loop has come down to \<open>i = k\<close>, and the good-suffix
  table the construction ends with.
\<close>

definition gs_border :: "nat \<Rightarrow> nat \<Rightarrow> int list" where
  "gs_border m k = replicate k 0 @ replicate (m - k) (int m) @ [int m + 1]"

definition gs_final :: "nat \<Rightarrow> int list" where
  "gs_final m = replicate (m - 1) (int m) @ [1]"

section \<open>Properties of the SimpleScanner\<close>

lemma all_from_split:
  "(i::nat) < n \<Longrightarrow> (\<forall>j. i \<le> j \<and> j < n \<longrightarrow> P j) \<longleftrightarrow> (P i \<and> (\<forall>j. i + 1 \<le> j \<and> j < n \<longrightarrow> P j))"
proof -
  assume lt: "i < n"
  have "\<And>j. i \<le> j \<longleftrightarrow> j = i \<or> i + 1 \<le> j" by auto
  then show ?thesis using lt by auto
qed

lemma MatchesPattern_from_correct:
  assumes len: "length (mask_v p) = length (bytes p)" and fit: "off + Size p \<le> length d"
  shows "MatchesPattern_from p d off i =
           Some (\<forall>j. i \<le> j \<and> j < Size p \<longrightarrow> mask_v p ! j \<longrightarrow> d ! (off + j) = bytes p ! j)"
proof (induction "Size p - i" arbitrary: i)
  case 0
  then have "\<not> i < Size p" by simp
  then show ?case by (subst MatchesPattern_from.simps) auto
next
  case (Suc n)
  then have lt: "i < Size p" by simp
  have r1: "rd (mask_v p) i = Some (mask_v p ! i)"
    and r2: "rd d (off + i) = Some (d ! (off + i))"
    and r3: "rd (bytes p) i = Some (bytes p ! i)"
    using lt len fit by (simp_all add: rd_def Size_def)
  have IH: "MatchesPattern_from p d off (i + 1) =
           Some (\<forall>j. i + 1 \<le> j \<and> j < Size p \<longrightarrow> mask_v p ! j \<longrightarrow> d ! (off + j) = bytes p ! j)"
    using Suc.hyps(1) [of "i + 1"] Suc.hyps(2) by simp
  have step: "MatchesPattern_from p d off i =
      (if mask_v p ! i then
         (if d ! (off + i) \<noteq> bytes p ! i then Some False else MatchesPattern_from p d off (i + 1))
       else MatchesPattern_from p d off (i + 1))"
    by (subst MatchesPattern_from.simps) (simp only: lt r1 r2 r3 if_True option.case)
  show ?case
    unfolding step IH
      all_from_split [OF lt, of "\<lambda>j. mask_v p ! j \<longrightarrow> d ! (off + j) = bytes p ! j"]
    by auto
qed

lemma MatchesPattern_match_at:
  assumes "IsValid p" and "off + Size p \<le> length d"
  shows "MatchesPattern p d off = Some (match_at p d off)"
  using MatchesPattern_from_correct [of p off d 0] assms
  by (auto simp: MatchesPattern_def match_at_def IsValid_def)

lemma SimpleScan_from_found:
  assumes "IsValid p" and "lastoff + Size p \<le> length d"
    and "i \<le> k" and "k \<le> lastoff" and "match_at p d k"
    and "\<forall>k'. i \<le> k' \<and> k' < k \<longrightarrow> \<not> match_at p d k'"
  shows "SimpleScan_from p d lastoff base i = Some (ScanResult_at (base + of_nat k) k)"
  using assms
proof (induction "k - i" arbitrary: i)
  case 0
  then have "i = k" by simp
  with 0 MatchesPattern_match_at [of p k d] show ?case
    by (subst SimpleScan_from.simps) simp
next
  case (Suc n)
  then have lt: "i < k" by simp
  with Suc.prems have nm: "\<not> match_at p d i" by simp
  have m: "MatchesPattern p d i = Some False"
    using MatchesPattern_match_at [of p i d] Suc.prems lt nm by simp
  have "SimpleScan_from p d lastoff base (i + 1) = Some (ScanResult_at (base + of_nat k) k)"
    using Suc.hyps(1) [of "i + 1"] Suc.hyps(2) Suc.prems lt by simp
  with m lt Suc.prems show ?case
    by (subst SimpleScan_from.simps) simp
qed

lemma SimpleScan_from_none:
  assumes "IsValid p" and "lastoff + Size p \<le> length d"
    and "\<forall>k. i \<le> k \<and> k \<le> lastoff \<longrightarrow> \<not> match_at p d k"
  shows "SimpleScan_from p d lastoff base i = Some ScanResult_none"
  using assms
proof (induction "lastoff + 1 - i" arbitrary: i)
  case 0
  then show ?case by (subst SimpleScan_from.simps) simp
next
  case (Suc n)
  then have le: "i \<le> lastoff" by simp
  have m: "MatchesPattern p d i = Some False"
    using MatchesPattern_match_at [of p i d] Suc.prems le by simp
  have "SimpleScan_from p d lastoff base (i + 1) = Some ScanResult_none"
    using Suc.hyps(1) [of "i + 1"] Suc.hyps(2) Suc.prems by simp
  with m le show ?case
    by (subst SimpleScan_from.simps) simp
qed

text \<open>
  Claim C4. For a valid pattern and a buffer that holds the \<open>sz\<close> bytes announced, with
  \<open>sz\<close> at least the pattern's size, \<^verbatim>\<open>SimpleScanner::Scan\<close> returns the smallest offset
  \<open>i \<le> sz - Size p\<close> at which the masked match predicate holds, with \<open>found\<close> set and the
  address \<open>base + i\<close>; when no offset matches it returns the not-found result; and for an
  invalid pattern, a null pointer or a buffer shorter than the pattern it returns the
  not-found result too. In each case the function returns (it is never \<open>None\<close>).
\<close>

theorem SimpleScanner_Scan_first_match:
  "(IsValid p \<and> Size p \<le> sz \<and> sz \<le> length d \<and> i \<le> sz - Size p \<and> match_at p d i
      \<and> (\<forall>k \<in> {0..<i}. \<not> match_at p d k)
     \<longrightarrow> SimpleScanner_Scan p (Some d) sz base
           = Some \<lparr>address = base + of_nat i, offset = i, found = True\<rparr>)
   \<and> (IsValid p \<and> Size p \<le> sz \<and> sz \<le> length d \<and> (\<forall>k \<in> {0..sz - Size p}. \<not> match_at p d k)
     \<longrightarrow> SimpleScanner_Scan p (Some d) sz base
           = Some \<lparr>address = 0, offset = 0, found = False\<rparr>)
   \<and> (\<not> IsValid p \<or> data = None \<or> sz < Size p
     \<longrightarrow> SimpleScanner_Scan p data sz base
           = Some \<lparr>address = 0, offset = 0, found = False\<rparr>)"
proof (intro conjI impI)
  assume a: "IsValid p \<and> Size p \<le> sz \<and> sz \<le> length d \<and> i \<le> sz - Size p \<and> match_at p d i
      \<and> (\<forall>k \<in> {0..<i}. \<not> match_at p d k)"
  then have "SimpleScan_from p d (sz - Size p) base 0 = Some (ScanResult_at (base + of_nat i) i)"
    by (intro SimpleScan_from_found) auto
  with a show "SimpleScanner_Scan p (Some d) sz base
           = Some \<lparr>address = base + of_nat i, offset = i, found = True\<rparr>"
    by (simp add: SimpleScanner_Scan_def ScanResult_at_def)
next
  assume a: "IsValid p \<and> Size p \<le> sz \<and> sz \<le> length d \<and> (\<forall>k \<in> {0..sz - Size p}. \<not> match_at p d k)"
  then have "SimpleScan_from p d (sz - Size p) base 0 = Some ScanResult_none"
    by (intro SimpleScan_from_none) auto
  with a show "SimpleScanner_Scan p (Some d) sz base
           = Some \<lparr>address = 0, offset = 0, found = False\<rparr>"
    by (simp add: SimpleScanner_Scan_def ScanResult_none_def)
next
  assume "\<not> IsValid p \<or> data = None \<or> sz < Size p"
  then show "SimpleScanner_Scan p data sz base = Some \<lparr>address = 0, offset = 0, found = False\<rparr>"
    by (auto simp: SimpleScanner_Scan_def ScanResult_none_def split: option.splits)
qed

theorem SimpleScanner_Scan_first_match_witness:
  "IsValid \<lparr>bytes = [0xDE, 0x00, 0xBE, 0xEF], mask_v = [True, False, True, True]\<rparr>
   \<and> Size \<lparr>bytes = [0xDE, 0x00, 0xBE, 0xEF], mask_v = [True, False, True, True]\<rparr> \<le> 5
   \<and> 5 \<le> length [0x90, 0xDE, 0xFF, 0xBE, 0xEF :: byte]
   \<and> 1 \<le> 5 - Size \<lparr>bytes = [0xDE, 0x00, 0xBE, 0xEF], mask_v = [True, False, True, True]\<rparr>
   \<and> match_at \<lparr>bytes = [0xDE, 0x00, 0xBE, 0xEF], mask_v = [True, False, True, True]\<rparr>
         [0x90, 0xDE, 0xFF, 0xBE, 0xEF] 1
   \<and> \<not> match_at \<lparr>bytes = [0xDE, 0x00, 0xBE, 0xEF], mask_v = [True, False, True, True]\<rparr>
         [0x90, 0xDE, 0xFF, 0xBE, 0xEF] 0
   \<and> SimpleScanner_Scan \<lparr>bytes = [0xDE, 0x00, 0xBE, 0xEF], mask_v = [True, False, True, True]\<rparr>
         (Some [0x90, 0xDE, 0xFF, 0xBE, 0xEF]) 5 0x140001000
       = Some \<lparr>address = 0x140001001, offset = 1, found = True\<rparr>
   \<and> 5 \<le> length [0x90, 0xDE, 0xFF, 0xBE, 0xEE :: byte]
   \<and> \<not> match_at \<lparr>bytes = [0xDE, 0x00, 0xBE, 0xEF], mask_v = [True, False, True, True]\<rparr>
         [0x90, 0xDE, 0xFF, 0xBE, 0xEE] 0
   \<and> \<not> match_at \<lparr>bytes = [0xDE, 0x00, 0xBE, 0xEF], mask_v = [True, False, True, True]\<rparr>
         [0x90, 0xDE, 0xFF, 0xBE, 0xEE] 1
   \<and> SimpleScanner_Scan \<lparr>bytes = [0xDE, 0x00, 0xBE, 0xEF], mask_v = [True, False, True, True]\<rparr>
         (Some [0x90, 0xDE, 0xFF, 0xBE, 0xEE]) 5 0x140001000
       = Some \<lparr>address = 0, offset = 0, found = False\<rparr>
   \<and> 3 < Size \<lparr>bytes = [0xDE, 0x00, 0xBE, 0xEF], mask_v = [True, False, True, True]\<rparr>
   \<and> SimpleScanner_Scan \<lparr>bytes = [0xDE, 0x00, 0xBE, 0xEF], mask_v = [True, False, True, True]\<rparr>
         (Some [0xDE, 0xFF, 0xBE]) 3 0x140001000
       = Some \<lparr>address = 0, offset = 0, found = False\<rparr>"
proof -
  have h1: "IsValid \<lparr>bytes = [0xDE, 0x00, 0xBE, 0xEF], mask_v = [True, False, True, True]\<rparr>
      \<and> Size \<lparr>bytes = [0xDE, 0x00, 0xBE, 0xEF], mask_v = [True, False, True, True]\<rparr> \<le> 5
      \<and> 5 \<le> length [0x90, 0xDE, 0xFF, 0xBE, 0xEF :: byte]
      \<and> 1 \<le> 5 - Size \<lparr>bytes = [0xDE, 0x00, 0xBE, 0xEF], mask_v = [True, False, True, True]\<rparr>
      \<and> match_at \<lparr>bytes = [0xDE, 0x00, 0xBE, 0xEF], mask_v = [True, False, True, True]\<rparr>
            [0x90, 0xDE, 0xFF, 0xBE, 0xEF] 1
      \<and> (\<forall>k \<in> {0..<1}.
            \<not> match_at \<lparr>bytes = [0xDE, 0x00, 0xBE, 0xEF], mask_v = [True, False, True, True]\<rparr>
                [0x90, 0xDE, 0xFF, 0xBE, 0xEF] k)"
    by code_simp
  have h2: "IsValid \<lparr>bytes = [0xDE, 0x00, 0xBE, 0xEF], mask_v = [True, False, True, True]\<rparr>
      \<and> Size \<lparr>bytes = [0xDE, 0x00, 0xBE, 0xEF], mask_v = [True, False, True, True]\<rparr> \<le> 5
      \<and> 5 \<le> length [0x90, 0xDE, 0xFF, 0xBE, 0xEE :: byte]
      \<and> (\<forall>k \<in> {0..5 - Size \<lparr>bytes = [0xDE, 0x00, 0xBE, 0xEF], mask_v = [True, False, True, True]\<rparr>}.
            \<not> match_at \<lparr>bytes = [0xDE, 0x00, 0xBE, 0xEF], mask_v = [True, False, True, True]\<rparr>
                [0x90, 0xDE, 0xFF, 0xBE, 0xEE] k)"
    by code_simp
  have h3: "3 < Size \<lparr>bytes = [0xDE, 0x00, 0xBE, 0xEF], mask_v = [True, False, True, True]\<rparr>"
    by code_simp
  note t1 = SimpleScanner_Scan_first_match
              [of "\<lparr>bytes = [0xDE, 0x00, 0xBE, 0xEF], mask_v = [True, False, True, True]\<rparr>"
                  5 "[0x90, 0xDE, 0xFF, 0xBE, 0xEF]" 1 "0x140001000" None]
  note t2 = SimpleScanner_Scan_first_match
              [of "\<lparr>bytes = [0xDE, 0x00, 0xBE, 0xEF], mask_v = [True, False, True, True]\<rparr>"
                  5 "[0x90, 0xDE, 0xFF, 0xBE, 0xEE]" 0 "0x140001000" None]
  note t3 = SimpleScanner_Scan_first_match
              [of "\<lparr>bytes = [0xDE, 0x00, 0xBE, 0xEF], mask_v = [True, False, True, True]\<rparr>"
                  3 "[]" 0 "0x140001000" "Some [0xDE, 0xFF, 0xBE]"]
  have c1: "SimpleScanner_Scan \<lparr>bytes = [0xDE, 0x00, 0xBE, 0xEF], mask_v = [True, False, True, True]\<rparr>
              (Some [0x90, 0xDE, 0xFF, 0xBE, 0xEF]) 5 0x140001000
            = Some \<lparr>address = 0x140001001, offset = 1, found = True\<rparr>"
    using t1 h1 by simp
  have c2: "SimpleScanner_Scan \<lparr>bytes = [0xDE, 0x00, 0xBE, 0xEF], mask_v = [True, False, True, True]\<rparr>
              (Some [0x90, 0xDE, 0xFF, 0xBE, 0xEE]) 5 0x140001000
            = Some \<lparr>address = 0, offset = 0, found = False\<rparr>"
    using t2 h2 by blast
  have c3: "SimpleScanner_Scan \<lparr>bytes = [0xDE, 0x00, 0xBE, 0xEF], mask_v = [True, False, True, True]\<rparr>
              (Some [0xDE, 0xFF, 0xBE]) 3 0x140001000
            = Some \<lparr>address = 0, offset = 0, found = False\<rparr>"
    using t3 h3 by blast
  have m: "\<not> match_at \<lparr>bytes = [0xDE, 0x00, 0xBE, 0xEF], mask_v = [True, False, True, True]\<rparr>
               [0x90, 0xDE, 0xFF, 0xBE, 0xEF] 0
      \<and> \<not> match_at \<lparr>bytes = [0xDE, 0x00, 0xBE, 0xEF], mask_v = [True, False, True, True]\<rparr>
               [0x90, 0xDE, 0xFF, 0xBE, 0xEE] 0
      \<and> \<not> match_at \<lparr>bytes = [0xDE, 0x00, 0xBE, 0xEF], mask_v = [True, False, True, True]\<rparr>
               [0x90, 0xDE, 0xFF, 0xBE, 0xEE] 1"
    by code_simp
  show ?thesis using h1 h2 h3 c1 c2 c3 m by blast
qed

section \<open>Properties of the SIMDScanner\<close>

lemma FastScan_match_eq:
  "FastScan_match bs d i j =
     MatchesPattern_from \<lparr>bytes = bs, mask_v = replicate (length bs) True\<rparr> d i j"
proof (induction "length bs - j" arbitrary: j)
  case 0
  then have "\<not> j < length bs" by simp
  then show ?case
    by (subst FastScan_match.simps, subst MatchesPattern_from.simps) (simp add: Size_def)
next
  case (Suc n)
  then have lt: "j < length bs" by simp
  have IH: "FastScan_match bs d i (Suc j) =
     MatchesPattern_from \<lparr>bytes = bs, mask_v = replicate (length bs) True\<rparr> d i (Suc j)"
    using Suc.hyps(1) [of "j + 1"] Suc.hyps(2) by simp
  have r: "rd (replicate (length bs) True) j = Some True" "rd bs j = Some (bs ! j)"
    using lt by (simp_all add: rd_def)
  show ?case
    by (subst FastScan_match.simps, subst MatchesPattern_from.simps)
       (simp add: Size_def lt r IH split: option.splits)
qed

lemma FastScan_from_eq:
  "FastScan_from bs d lastoff base i =
     SimpleScan_from \<lparr>bytes = bs, mask_v = replicate (length bs) True\<rparr> d lastoff base i"
proof (induction "lastoff + 1 - i" arbitrary: i)
  case 0
  then have "\<not> i \<le> lastoff" by simp
  then show ?case
    by (subst FastScan_from.simps, subst SimpleScan_from.simps) simp
next
  case (Suc n)
  then have IH: "FastScan_from bs d lastoff base (Suc i) =
     SimpleScan_from \<lparr>bytes = bs, mask_v = replicate (length bs) True\<rparr> d lastoff base (Suc i)"
    using Suc.hyps(1) [of "i + 1"] by simp
  show ?case
    by (subst FastScan_from.simps, subst SimpleScan_from.simps)
       (simp add: IH MatchesPattern_def FastScan_match_eq split: option.splits)
qed

text \<open>
  Claim C9. For a non-empty byte sequence, \<^verbatim>\<open>SIMDScanner::FastScan\<close> returns what
  \<^verbatim>\<open>SimpleScanner::Scan\<close> returns on the pattern built from these bytes with a mask of
  \<open>True\<close> only: the same offset, address and \<open>found\<close> flag, also when neither finds a match.
\<close>

theorem FastScan_agrees_with_SimpleScanner:
  "bs \<noteq> [] \<Longrightarrow>
     FastScan bs data sz base =
       SimpleScanner_Scan (Pattern_of bs (replicate (length bs) True)) data sz base"
  by (simp add: FastScan_def SimpleScanner_Scan_def Pattern_of_def IsValid_def Size_def
        FastScan_from_eq split: option.splits)

theorem FastScan_agrees_with_SimpleScanner_witness:
  "[0x48, 0x8B, 0x05] \<noteq> ([] :: byte list)
   \<and> FastScan [0x48, 0x8B, 0x05] (Some [0x90, 0x48, 0x8B, 0x05, 0x12]) 5 0x140001000
       = SimpleScanner_Scan (Pattern_of [0x48, 0x8B, 0x05] (replicate (length [0x48, 0x8B, 0x05 :: byte]) True))
           (Some [0x90, 0x48, 0x8B, 0x05, 0x12]) 5 0x140001000
   \<and> FastScan [0x48, 0x8B, 0x05] (Some [0x90, 0x48, 0x8B, 0x05, 0x12]) 5 0x140001000
       = Some \<lparr>address = 0x140001001, offset = 1, found = True\<rparr>"
proof -
  have h: "[0x48, 0x8B, 0x05] \<noteq> ([] :: byte list)" by simp
  have v: "FastScan [0x48, 0x8B, 0x05] (Some [0x90, 0x48, 0x8B, 0x05, 0x12]) 5 0x140001000
       = Some \<lparr>address = 0x140001001, offset = 1, found = True\<rparr>"
    by code_simp
  from FastScan_agrees_with_SimpleScanner [OF h, of "Some [0x90, 0x48, 0x8B, 0x05, 0x12]" 5 "0x140001000"]
    h v show ?thesis by blast
qed

section \<open>Properties of AnalyzeMemory\<close>

text \<open>
  Claim C8, as the code has it. With a null pointer or with size 0, \<^verbatim>\<open>AnalyzeMemory\<close> returns
  without an error the statistics whose \<open>totalSize\<close> is the \<open>size\<close> argument (so 0 when the
  size is 0) and whose other fields are zero or empty.
\<close>

theorem AnalyzeMemory_null_or_empty:
  "data = None \<or> sz = 0 \<Longrightarrow>
     AnalyzeMemory std_sort data sz =
       Some \<lparr>totalSize = sz, executableSize = 0, writableSize = 0,
             mostCommonBytes = [], commonPatterns = [], entropy = 0\<rparr>"
  by (auto simp: AnalyzeMemory_def Let_def split: option.splits)

theorem AnalyzeMemory_null_or_empty_witness:
  "((None :: byte list option) = None \<or> (5::nat) = 0)
   \<and> AnalyzeMemory id None 5 =
       Some \<lparr>totalSize = 5, executableSize = 0, writableSize = 0,
             mostCommonBytes = [], commonPatterns = [], entropy = 0\<rparr>
   \<and> (Some [0x90, 0x90] = (None :: byte list option) \<or> (0::nat) = 0)
   \<and> AnalyzeMemory id (Some [0x90, 0x90]) 0 =
       Some \<lparr>totalSize = 0, executableSize = 0, writableSize = 0,
             mostCommonBytes = [], commonPatterns = [], entropy = 0\<rparr>"
  using AnalyzeMemory_null_or_empty [of None 5 id]
        AnalyzeMemory_null_or_empty [of "Some [0x90, 0x90]" 0 id]
  by simp

text \<open>
  The claim as stated asks for \<open>totalSize = 0\<close> also for a null pointer with a size that
  is not 0; the code has stored the size before it looks at the pointer.
\<close>

theorem AnalyzeMemory_null_totalSize_counterexample:
  "map_option totalSize (AnalyzeMemory id None 5) \<noteq> Some 0"
  by (simp add: AnalyzeMemory_def Let_def)

section \<open>Properties of FuzzyScan\<close>

lemma Fuzzy_count_wild:
  assumes len: "length (mask_v p) = length (bytes p)" and wild: "True \<notin> set (mask_v p)"
  shows "Fuzzy_count p d i j (a, b) = Some (a, b)"
proof (induction "Size p - j" arbitrary: j)
  case 0
  then have "\<not> j < Size p" by simp
  then show ?case by (subst Fuzzy_count.simps) simp
next
  case (Suc n)
  then have lt: "j < Size p" by simp
  then have "mask_v p ! j \<in> set (mask_v p)"
    using len by (simp add: Size_def)
  with wild have f: "\<not> mask_v p ! j" by metis
  have r: "rd (mask_v p) j = Some False"
    using lt len f by (simp add: rd_def Size_def)
  have IH: "Fuzzy_count p d i (Suc j) (a, b) = Some (a, b)"
    using Suc.hyps(1) [of "Suc j"] Suc.hyps(2) by simp
  show ?case
    by (subst Fuzzy_count.simps) (simp add: lt r IH)
qed

lemma FuzzyScan_from_wild:
  assumes len: "length (mask_v p) = length (bytes p)" and wild: "True \<notin> set (mask_v p)"
  shows "FuzzyScan_from fdiv p d lastoff t base i (0, 0) = Some FuzzyResult_none"
proof (induction "lastoff + 1 - i" arbitrary: i)
  case 0
  then have "\<not> i \<le> lastoff" by simp
  then show ?case by (subst FuzzyScan_from.simps) simp
next
  case (Suc n)
  then have IH: "FuzzyScan_from fdiv p d lastoff t base (Suc i) (0, 0) = Some FuzzyResult_none"
    using Suc.hyps(1) [of "Suc i"] by simp
  show ?case
    by (subst FuzzyScan_from.simps) (simp add: Fuzzy_count_wild [OF len wild] IH)
qed

lemma MatchesPattern_from_wild:
  assumes len: "length (mask_v p) = length (bytes p)" and wild: "True \<notin> set (mask_v p)"
  shows "MatchesPattern_from p d off i = Some True"
proof (induction "Size p - i" arbitrary: i)
  case 0
  then have "\<not> i < Size p" by simp
  then show ?case by (subst MatchesPattern_from.simps) simp
next
  case (Suc n)
  then have lt: "i < Size p" by simp
  then have "mask_v p ! i \<in> set (mask_v p)"
    using len by (simp add: Size_def)
  with wild have f: "\<not> mask_v p ! i" by metis
  have r: "rd (mask_v p) i = Some False"
    using lt len f by (simp add: rd_def Size_def)
  have IH: "MatchesPattern_from p d off (Suc i) = Some True"
    using Suc.hyps(1) [of "Suc i"] Suc.hyps(2) by simp
  show ?case
    by (subst MatchesPattern_from.simps) (simp add: lt r IH)
qed

text \<open>
  Claim C10. For a valid pattern whose mask has no entry set, a non-null buffer with
  \<open>sz\<close> at least the pattern's size and a threshold in \<open>[0, 1]\<close>, \<^verbatim>\<open>FuzzyScan\<close> returns the
  empty result (not found, similarity 0, address 0, offset 0), although
  \<^verbatim>\<open>MatchesPattern\<close> holds at every viable offset.
\<close>

theorem FuzzyScan_all_wildcards:
  "IsValid p \<Longrightarrow> True \<notin> set (mask_v p) \<Longrightarrow> Size p \<le> sz \<Longrightarrow> 0 \<le> threshold \<Longrightarrow> threshold \<le> 1 \<Longrightarrow>
     FuzzyScan fdiv p (Some d) sz threshold base
       = Some \<lparr>fz_address = 0, fz_offset = 0, similarity = 0, fz_found = False\<rparr>
     \<and> (\<forall>i. i \<le> sz - Size p \<longrightarrow> MatchesPattern p d i = Some True)"
  by (simp add: FuzzyScan_def IsValid_def FuzzyScan_from_wild FuzzyResult_none_def
        MatchesPattern_def MatchesPattern_from_wild)

theorem FuzzyScan_all_wildcards_witness:
  "IsValid \<lparr>bytes = [0x00, 0x00], mask_v = [False, False]\<rparr>
   \<and> True \<notin> set (mask_v \<lparr>bytes = [0x00, 0x00], mask_v = [False, False]\<rparr>)
   \<and> Size \<lparr>bytes = [0x00, 0x00], mask_v = [False, False]\<rparr> \<le> 3
   \<and> FuzzyScan exact_div \<lparr>bytes = [0x00, 0x00], mask_v = [False, False]\<rparr>
        (Some [0x11, 0x22, 0x33]) 3 (1 / 2) 0x1000
       = Some \<lparr>fz_address = 0, fz_offset = 0, similarity = 0, fz_found = False\<rparr>
   \<and> MatchesPattern \<lparr>bytes = [0x00, 0x00], mask_v = [False, False]\<rparr> [0x11, 0x22, 0x33] 1
       = Some True"
proof -
  have h: "IsValid \<lparr>bytes = [0x00, 0x00], mask_v = [False, False]\<rparr>"
    "True \<notin> set (mask_v \<lparr>bytes = [0x00, 0x00], mask_v = [False, False]\<rparr>)"
    "Size \<lparr>bytes = [0x00, 0x00], mask_v = [False, False]\<rparr> \<le> 3"
    "(0::rat) \<le> 1 / 2" "(1::rat) / 2 \<le> 1"
    by (simp_all add: IsValid_def Size_def)
  from FuzzyScan_all_wildcards [OF h, of exact_div "[0x11, 0x22, 0x33]" "0x1000"] h
  show ?thesis by (simp add: Size_def)
qed

lemma Fuzzy_count_total:
  assumes len: "length (mask_v p) = length (bytes p)" and fit: "i + Size p \<le> length d"
  shows "Fuzzy_count p d i j (a, b) =
           Some (a + int (length (filter (\<lambda>k. mask_v p ! k \<and> d ! (i + k) = bytes p ! k)
                                    [j..<Size p])),
                 b + int (length (filter (\<lambda>k. mask_v p ! k) [j..<Size p])))"
proof (induction "Size p - j" arbitrary: j a b)
  case 0
  then have "\<not> j < Size p" by simp
  then show ?case by (subst Fuzzy_count.simps) simp
next
  case (Suc n)
  then have lt: "j < Size p" by simp
  have r: "rd (mask_v p) j = Some (mask_v p ! j)" "rd d (i + j) = Some (d ! (i + j))"
    "rd (bytes p) j = Some (bytes p ! j)"
    using lt len fit by (simp_all add: rd_def Size_def)
  have up: "[j..<Size p] = j # [Suc j..<Size p]"
    using lt by (simp add: upt_conv_Cons)
  have IH: "\<And>a b. Fuzzy_count p d i (j + 1) (a, b) =
           Some (a + int (length (filter (\<lambda>k. mask_v p ! k \<and> d ! (i + k) = bytes p ! k)
                                    [Suc j..<Size p])),
                 b + int (length (filter (\<lambda>k. mask_v p ! k) [Suc j..<Size p])))"
    using Suc.hyps(1) [of "Suc j"] Suc.hyps(2) by simp
  show ?case
  proof (cases "mask_v p ! j")
    case False
    then show ?thesis
      by (subst Fuzzy_count.simps) (simp add: lt r up IH del: One_nat_def)
  next
    case True
    show ?thesis
    proof (cases "d ! (i + j) = bytes p ! j")
      case eq: True
      have "Fuzzy_count p d i j (a, b) = Fuzzy_count p d i (j + 1) (a + 1, b + 1)"
        by (subst Fuzzy_count.simps) (simp only: lt r True if_True option.case, simp add: eq)
      then show ?thesis
        using True eq by (simp only: IH up) simp
    next
      case ne: False
      have "Fuzzy_count p d i j (a, b) = Fuzzy_count p d i (j + 1) (a, b + 1)"
        by (subst Fuzzy_count.simps) (simp only: lt r True if_True option.case, simp add: ne)
      then show ?thesis
        using True ne by (simp only: IH up) simp
    qed
  qed
qed

lemma ex_from_split:
  "(i::nat) \<le> n \<Longrightarrow>
     (\<exists>k. i \<le> k \<and> k \<le> n \<and> P k) \<longleftrightarrow> P i \<or> (\<exists>k. Suc i \<le> k \<and> k \<le> n \<and> P k)"
proof -
  assume le: "i \<le> n"
  have "\<And>k. i \<le> k \<longleftrightarrow> k = i \<or> Suc i \<le> k" by auto
  then show ?thesis using le by auto
qed

lemma checked_positions_pos:
  assumes "True \<in> set (mask_v p)" and "length (mask_v p) = length (bytes p)"
  shows "0 < checked_positions p"
proof -
  from assms(1) obtain k where "k < length (mask_v p)" "mask_v p ! k"
    by (auto simp: in_set_conv_nth)
  then have "k \<in> set (filter (\<lambda>k. mask_v p ! k) [0..<Size p])"
    using assms(2) by (simp add: Size_def)
  then show ?thesis
    unfolding checked_positions_def by (simp only: length_pos_if_in_set)
qed

lemma Fuzzy_count_spec:
  assumes "IsValid p" and "i + Size p \<le> length d"
  shows "Fuzzy_count p d i 0 (0, 0)
           = Some (int (matching_positions p d i), int (checked_positions p))"
proof -
  from assms(1) have len: "length (mask_v p) = length (bytes p)"
    by (simp add: IsValid_def)
  from Fuzzy_count_total [OF len assms(2), of 0 0 0] show ?thesis
    by (simp add: matching_positions_def checked_positions_def)
qed

lemma spec_similarity_pos:
  "0 < checked_positions p \<Longrightarrow> 0 < spec_similarity p d i \<longleftrightarrow> 0 < matching_positions p d i"
  by (simp add: spec_similarity_def zero_less_divide_iff)

lemma FuzzyScan_from_found:
  assumes v: "IsValid p" and m: "True \<in> set (mask_v p)" and fit: "lastoff + Size p \<le> length d"
    and ok: "fdiv_sign_ok fdiv" and t: "0 \<le> threshold"
  shows "\<exists>r. FuzzyScan_from fdiv p d lastoff threshold base i (best, bo) = Some r
           \<and> (fz_found r \<longleftrightarrow>
                0 < best \<or> (\<exists>k. i \<le> k \<and> k \<le> lastoff
                              \<and> (threshold = 0 \<or> 0 < spec_similarity p d k)))"
proof (induction "lastoff + 1 - i" arbitrary: i best bo)
  case 0
  then have "\<not> i \<le> lastoff" by simp
  then show ?case
    by (subst FuzzyScan_from.simps) (auto simp: FuzzyResult_at_def FuzzyResult_none_def)
next
  case (Suc n)
  then have le: "i \<le> lastoff" by simp
  with fit have "i + Size p \<le> length d" by simp
  note c = Fuzzy_count_spec [OF v this]
  from v have len: "length (mask_v p) = length (bytes p)"
    by (simp add: IsValid_def)
  have cpos: "0 < checked_positions p"
    by (rule checked_positions_pos [OF m len])
  define mt where "mt = int (matching_positions p d i)"
  define tot where "tot = int (checked_positions p)"
  have pos: "0 < tot" and mnn: "0 \<le> mt"
    using cpos by (simp_all add: tot_def mt_def)
  have c': "Fuzzy_count p d i 0 (0, 0) = Some (mt, tot)"
    using c by (simp add: mt_def tot_def)
  from ok pos mnn have nn: "0 \<le> fdiv mt tot" and sg: "0 < fdiv mt tot \<longleftrightarrow> 0 < mt"
    unfolding fdiv_sign_ok_def by blast+
  have sp: "0 < spec_similarity p d i \<longleftrightarrow> 0 < fdiv mt tot"
    using spec_similarity_pos [OF cpos, of d i] sg by (simp add: mt_def)
  note ex = ex_from_split [OF le]
  show ?case
  proof (cases "threshold \<le> fdiv mt tot")
    case True
    then have "FuzzyScan_from fdiv p d lastoff threshold base i (best, bo)
                 = Some (FuzzyResult_at (base + of_nat i) i (fdiv mt tot))"
      by (subst FuzzyScan_from.simps) (simp add: le c' pos)
    moreover have "threshold = 0 \<or> 0 < spec_similarity p d i"
      using True t sp by auto
    ultimately show ?thesis
      using le by (auto simp: FuzzyResult_at_def)
  next
    case False
    with nn have tne: "threshold \<noteq> 0" by auto
    define st where "st = (if best < fdiv mt tot then (fdiv mt tot, i) else (best, bo))"
    have step: "FuzzyScan_from fdiv p d lastoff threshold base i (best, bo)
                 = FuzzyScan_from fdiv p d lastoff threshold base (Suc i) (fst st, snd st)"
      using False by (subst FuzzyScan_from.simps) (simp add: le c' pos st_def)
    have "n = lastoff + 1 - Suc i" using Suc.hyps(2) le by simp
    from Suc.hyps(1) [OF this, of "fst st" "snd st"] obtain r where
      r: "FuzzyScan_from fdiv p d lastoff threshold base (Suc i) (fst st, snd st) = Some r"
      and f: "fz_found r \<longleftrightarrow>
                0 < fst st \<or> (\<exists>k. Suc i \<le> k \<and> k \<le> lastoff
                              \<and> (threshold = 0 \<or> 0 < spec_similarity p d k))"
      by auto
    have b: "0 < fst st \<longleftrightarrow> 0 < best \<or> 0 < fdiv mt tot"
      by (auto simp: st_def)
    show ?thesis
      unfolding step r ex [of "\<lambda>k. threshold = 0 \<or> 0 < spec_similarity p d k"]
      using f b sp tne by auto
  qed
qed

lemma exact_div_sign_ok: "fdiv_sign_ok exact_div"
  by (simp add: fdiv_sign_ok_def exact_div_def zero_le_divide_iff zero_less_divide_iff)

text \<open>
  Claim C7, as the code has it. For a valid pattern with at least one mask entry set, a
  non-null buffer that holds the \<open>sz\<close> bytes announced, with \<open>sz\<close> at least the
  pattern's size, and a threshold in \<open>[0, 1]\<close>, \<^verbatim>\<open>FuzzyScan\<close> returns, and \<open>found\<close> is set
  exactly when the threshold is 0 or the similarity of the specification (matching
  positions over checked positions) is positive at some viable offset; whether that
  similarity reaches the threshold plays no part.
\<close>

theorem FuzzyScan_found_iff_positive:
  "fdiv_sign_ok fdiv \<Longrightarrow> IsValid p \<Longrightarrow> True \<in> set (mask_v p) \<Longrightarrow> Size p \<le> sz \<Longrightarrow>
   sz \<le> length d \<Longrightarrow> 0 \<le> threshold \<Longrightarrow> threshold \<le> 1 \<Longrightarrow>
     \<exists>r. FuzzyScan fdiv p (Some d) sz threshold base = Some r
       \<and> (fz_found r \<longleftrightarrow>
            threshold = 0 \<or> (\<exists>i. i \<le> sz - Size p \<and> 0 < spec_similarity p d i))"
proof -
  assume ok: "fdiv_sign_ok fdiv" and v: "IsValid p" and m: "True \<in> set (mask_v p)"
    and a: "Size p \<le> sz" "sz \<le> length d" and t: "0 \<le> threshold" "threshold \<le> 1"
  from a have fit: "(sz - Size p) + Size p \<le> length d" by simp
  from FuzzyScan_from_found [OF v m fit ok t(1), of base 0 0 0] obtain r where
    r: "FuzzyScan_from fdiv p d (sz - Size p) threshold base 0 (0, 0) = Some r"
    and f: "fz_found r \<longleftrightarrow>
              (\<exists>k. k \<le> sz - Size p \<and> (threshold = 0 \<or> 0 < spec_similarity p d k))"
    by auto
  have "FuzzyScan fdiv p (Some d) sz threshold base = Some r"
    using v a t r by (simp add: FuzzyScan_def)
  moreover have "fz_found r \<longleftrightarrow>
            threshold = 0 \<or> (\<exists>i. i \<le> sz - Size p \<and> 0 < spec_similarity p d i)"
    using f by auto
  ultimately show ?thesis by blast
qed

theorem FuzzyScan_found_iff_positive_witness:
  "fdiv_sign_ok exact_div
   \<and> IsValid \<lparr>bytes = [0xAA, 0xAA], mask_v = [True, True]\<rparr>
   \<and> True \<in> set (mask_v \<lparr>bytes = [0xAA, 0xAA], mask_v = [True, True]\<rparr>)
   \<and> Size \<lparr>bytes = [0xAA, 0xAA], mask_v = [True, True]\<rparr> \<le> 3
   \<and> 3 \<le> length [0xBB, 0xAA, 0xBB :: byte]
   \<and> (0::rat) \<le> 3 / 4 \<and> (3::rat) / 4 \<le> 1
   \<and> spec_similarity \<lparr>bytes = [0xAA, 0xAA], mask_v = [True, True]\<rparr>
         [0xBB, 0xAA, 0xBB] 0 = 1 / 2
   \<and> FuzzyScan exact_div \<lparr>bytes = [0xAA, 0xAA], mask_v = [True, True]\<rparr>
         (Some [0xBB, 0xAA, 0xBB]) 3 (3 / 4) 0x1000
       = Some \<lparr>fz_address = 0x1000, fz_offset = 0, similarity = 1 / 2, fz_found = True\<rparr>
   \<and> spec_similarity \<lparr>bytes = [0xAA, 0xAA], mask_v = [True, True]\<rparr>
         [0xBB, 0xBB, 0xBB] 0 = 0
   \<and> spec_similarity \<lparr>bytes = [0xAA, 0xAA], mask_v = [True, True]\<rparr>
         [0xBB, 0xBB, 0xBB] 1 = 0
   \<and> FuzzyScan exact_div \<lparr>bytes = [0xAA, 0xAA], mask_v = [True, True]\<rparr>
         (Some [0xBB, 0xBB, 0xBB]) 3 (3 / 4) 0x1000
       = Some \<lparr>fz_address = 0, fz_offset = 0, similarity = 0, fz_found = False\<rparr>"
proof -
  have h: "fdiv_sign_ok exact_div"
    "IsValid \<lparr>bytes = [0xAA, 0xAA], mask_v = [True, True]\<rparr>"
    "True \<in> set (mask_v \<lparr>bytes = [0xAA, 0xAA], mask_v = [True, True]\<rparr>)"
    "Size \<lparr>bytes = [0xAA, 0xAA], mask_v = [True, True]\<rparr> \<le> 3"
    "3 \<le> length [0xBB, 0xAA, 0xBB :: byte]"
    "(0::rat) \<le> 3 / 4"
    "(3::rat) / 4 \<le> 1"
    by (simp_all add: IsValid_def Size_def exact_div_sign_ok)
  have s: "spec_similarity \<lparr>bytes = [0xAA, 0xAA], mask_v = [True, True]\<rparr>
             [0xBB, 0xAA, 0xBB] 0 = 1 / 2
     \<and> spec_similarity \<lparr>bytes = [0xAA, 0xAA], mask_v = [True, True]\<rparr>
             [0xBB, 0xBB, 0xBB] 0 = 0
     \<and> spec_similarity \<lparr>bytes = [0xAA, 0xAA], mask_v = [True, True]\<rparr>
             [0xBB, 0xBB, 0xBB] 1 = 0"
    by (simp add: spec_similarity_def matching_positions_def checked_positions_def Size_def
          upt_rec)
  have v: "FuzzyScan exact_div \<lparr>bytes = [0xAA, 0xAA], mask_v = [True, True]\<rparr>
           (Some [0xBB, 0xAA, 0xBB]) 3 (3 / 4) 0x1000
         = Some \<lparr>fz_address = 0x1000, fz_offset = 0, similarity = 1 / 2, fz_found = True\<rparr>
     \<and> FuzzyScan exact_div \<lparr>bytes = [0xAA, 0xAA], mask_v = [True, True]\<rparr>
         (Some [0xBB, 0xBB, 0xBB]) 3 (3 / 4) 0x1000
       = Some \<lparr>fz_address = 0, fz_offset = 0, similarity = 0, fz_found = False\<rparr>"
    by code_simp
  from FuzzyScan_found_iff_positive [OF h, of "0x1000"] h s v
  show ?thesis by blast
qed

text \<open>
  With the threshold 0 the first offset is returned as found whatever its similarity:
  the claim as stated fails for the pattern \<^verbatim>\<open>AA\<close> on the buffer \<^verbatim>\<open>BB\<close>, where the only
  viable offset has similarity 0.
\<close>

theorem FuzzyScan_threshold_zero_counterexample:
  "FuzzyScan exact_div \<lparr>bytes = [0xAA], mask_v = [True]\<rparr> (Some [0xBB]) 1 0 0
     = Some \<lparr>fz_address = 0, fz_offset = 0, similarity = 0, fz_found = True\<rparr>
   \<and> 1 - Size \<lparr>bytes = [0xAA], mask_v = [True]\<rparr> = 0
   \<and> spec_similarity \<lparr>bytes = [0xAA], mask_v = [True]\<rparr> [0xBB] 0 = 0"
proof -
  have a: "FuzzyScan exact_div \<lparr>bytes = [0xAA], mask_v = [True]\<rparr> (Some [0xBB]) 1 0 0
     = Some \<lparr>fz_address = 0, fz_offset = 0, similarity = 0, fz_found = True\<rparr>"
    by code_simp
  have b: "spec_similarity \<lparr>bytes = [0xAA], mask_v = [True]\<rparr> [0xBB] 0 = 0"
    by (simp add: spec_similarity_def matching_positions_def checked_positions_def Size_def)
  show ?thesis using a b by (simp add: Size_def)
qed

section \<open>Properties of the BoyerMooreScanner\<close>

lemma gs_border_init: "(replicate (m + 1) 0)[m := int m + 1] = gs_border m m"
  by (simp add: gs_border_def replicate_append_same [symmetric] list_update_append)

lemma gs_border_step:
  assumes "0 < k" and "k \<le> m"
  shows "(gs_border m k)[k - 1 := int m] = gs_border m (k - 1)"
proof -
  from assms obtain k' where k: "k = Suc k'" by (cases k) auto
  have "replicate (Suc k') (0::int) = replicate k' 0 @ [0]"
    by (simp add: replicate_append_same)
  moreover have "m - k' = Suc (m - Suc k')" using assms k by simp
  ultimately show ?thesis
    by (simp add: gs_border_def k list_update_append)
qed

lemma gs_border_length: "length (gs_border m k) = (if k \<le> m then m + 1 else k + 1)"
  by (simp add: gs_border_def)

lemma gs_border_last: "k \<le> m \<Longrightarrow> ix (gs_border m k) (int m) = Some (int m + 1)"
  by (simp add: ix_def gs_border_def nth_append)

lemma gs_border_0: "0 < m \<Longrightarrow> ix (gs_border m 0) 0 = Some (int m)"
  by (simp add: ix_def gs_border_def nth_append)

lemma gs_inner_stop: "int m < j \<Longrightarrow> gs_inner p (int m) b i j st = Some (j, st)"
  by (subst gs_inner.simps) (simp add: gs_cond_def)

lemma gs_inner_at_m:
  assumes "k \<le> m"
  shows "gs_inner p (int m) (gs_border m k) i (int m) st
           = Some (int m + 1, gs_fill (int m) (int m - 1) (int m - i) st)"
  by (subst gs_inner.simps)
     (simp add: gs_cond_def gs_border_last [OF assms] gs_inner_stop)

lemma gs_fill_last:
  assumes "0 < k" and "k < m"
    and "G = gs_final m \<or> (k = m - 1 \<and> G = replicate m (int m))"
  shows "gs_fill (int m) (int m - 1) (int m - int k) (G, []) = (gs_final m, [])"
proof -
  from assms obtain m' where m: "m = Suc m'" by (cases m) auto
  have r: "replicate (Suc m') (int (Suc m')) = replicate m' (int (Suc m')) @ [int (Suc m')]"
    by (simp add: replicate_append_same)
  have n: "nat (int (Suc m') - 1) = m'" by simp
  from assms(3) show ?thesis
  proof
    assume "G = gs_final m"
    then show ?thesis
      using assms(1,2) by (simp add: gs_fill_def ix_def gs_final_def m nth_append)
  next
    assume a: "k = m - 1 \<and> G = replicate m (int m)"
    then have "int m - int k = 1" using assms(1,2) by simp
    with a show ?thesis
      unfolding gs_fill_def ix_def gs_final_def m r by (simp add: nth_append list_update_append)
  qed
qed

lemma gs_outer_run:
  assumes "k < m"
    and "G = gs_final m \<or> (k = m - 1 \<and> G = replicate m (int m))"
  shows "gs_outer p (int m) (int k) (int m) (gs_border m k) (G, [])
           = Some (int m, gs_border m 0, (gs_final m, []))"
  using assms
proof (induction k arbitrary: G)
  case 0
  then have "G = gs_final m"
    by (cases "m = 1") (auto simp: gs_final_def)
  then show ?case by (subst gs_outer.simps) simp
next
  case (Suc k)
  have f: "gs_fill (int m) (int m - 1) (int m - int (Suc k)) (G, []) = (gs_final m, [])"
    using gs_fill_last [of "Suc k" m G] Suc.prems by simp
  have i: "gs_inner p (int m) (gs_border m (Suc k)) (int (Suc k)) (int m) (G, [])
             = Some (int m + 1, (gs_final m, []))"
    using gs_inner_at_m [of "Suc k" m p "int (Suc k)" "(G, [])"] Suc.prems(1) f by simp
  have b: "(gs_border m (Suc k))[nat (int (Suc k) - 1) := int m + 1 - 1] = gs_border m k"
    using gs_border_step [of "Suc k" m] Suc.prems(1) by simp
  have l: "int (Suc k) - 1 < int (length (gs_border m (Suc k)))"
    using Suc.prems(1) by (simp add: gs_border_length)
  have IH: "gs_outer p (int m) (int k) (int m) (gs_border m k) (gs_final m, [])
           = Some (int m, gs_border m 0, (gs_final m, []))"
    using Suc.IH [of "gs_final m"] Suc.prems(1) by simp
  have pos: "int (Suc k) > 0" by simp
  show ?case
    by (subst gs_outer.simps) (simp only: pos if_True i option.case fst_conv snd_conv l b,
        simp add: IH)
qed

lemma gs_complete_run:
  assumes "i \<le> m" and "0 < m"
  shows "gs_complete (int m) (gs_border m 0) (int i) (int m) (gs_final m, [])
           = Some (gs_final m, [int m])"
  using assms
proof (induction "m - i" arbitrary: i)
  case 0
  then have e: "i = m" by simp
  have f: "gs_fill (int m) (int m) (int m) (gs_final m, []) = (gs_final m, [int m])"
    using \<open>0 < m\<close> by (simp add: gs_fill_def ix_def gs_final_def)
  have s: "gs_complete (int m) (gs_border m 0) (int m + 1) (int m + 1) (gs_final m, [int m])
            = Some (gs_final m, [int m])"
    by (subst gs_complete.simps) simp
  show ?case
    unfolding e
    by (subst gs_complete.simps) (simp add: gs_border_last f s)
next
  case (Suc n)
  then have lt: "i < m" by simp
  have same: "(gs_final m)[i := int m] = gs_final m" if "gs_final m ! i = int m"
    using that by (metis list_update_id)
  have f: "gs_fill (int m) (int i) (int m) (gs_final m, []) = (gs_final m, [])"
    using lt same by (auto simp: gs_fill_def ix_def gs_final_def)
  have IH: "gs_complete (int m) (gs_border m 0) (int i + 1) (int m) (gs_final m, [])
           = Some (gs_final m, [int m])"
    using Suc.hyps(1) [of "Suc i"] Suc.hyps(2) Suc.prems lt by (simp add: add.commute)
  show ?case
    using lt by (subst gs_complete.simps) (simp add: f IH)
qed

text \<open>
  Claim C5 asks that every access to the good-suffix table stays inside \<open>[0, m - 1]\<close>.
  The code does otherwise, for every valid pattern: the completion loop runs \<open>i\<close> up to
  and including \<open>m\<close> on a vector of \<open>m\<close> entries, so it reaches for index \<open>m\<close> exactly once.
  The table it leaves is \<open>m\<close> everywhere but for a final 1, whatever the pattern.
\<close>

theorem BuildGoodSuffixTable_reads_past_end:
  "IsValid p \<Longrightarrow>
     BuildGoodSuffixTable p
       = Some (replicate (Size p - 1) (int (Size p)) @ [1], [int (Size p)])"
proof -
  assume v: "IsValid p"
  define m where "m = Size p"
  from v have "bytes p \<noteq> []" by (simp add: IsValid_def)
  then have pos: "0 < m" by (simp add: Size_def m_def)
  have first: "gs_inner p (int m) (gs_border m m) (int m) (int m + 1) (replicate m (int m), [])
                 = Some (int m + 1, (replicate m (int m), []))"
    by (rule gs_inner_stop) simp
  have b: "(gs_border m m)[nat (int m - 1) := int m] = gs_border m (m - 1)"
    using gs_border_step [of m m] pos by (simp add: nat_diff_distrib)
  have l: "int m - 1 < int (length (gs_border m m))"
    by (simp add: gs_border_length)
  have run: "gs_outer p (int m) (int m - 1) (int m) (gs_border m (m - 1)) (replicate m (int m), [])
           = Some (int m, gs_border m 0, (gs_final m, []))"
  proof -
    have e: "int (m - 1) = int m - 1" using pos by simp
    have "m - 1 < m" using pos by simp
    from gs_outer_run [OF this, of "replicate m (int m)" p] show ?thesis
      unfolding e by simp
  qed
  have ipos: "int m > 0" using pos by simp
  have outer: "gs_outer p (int m) (int m) (int m + 1) (gs_border m m) (replicate m (int m), [])
           = Some (int m, gs_border m 0, (gs_final m, []))"
    by (subst gs_outer.simps) (simp only: ipos if_True first option.case fst_conv snd_conv l b add_diff_cancel_right' run)
  have compl: "gs_complete (int m) (gs_border m 0) 0 (int m) (gs_final m, [])
           = Some (gs_final m, [int m])"
    using gs_complete_run [of 0 m] pos by simp
  show ?thesis
    unfolding BuildGoodSuffixTable_def m_def [symmetric] gs_border_init outer
    by (simp only: option.case fst_conv snd_conv gs_border_0 [OF pos] compl)
       (simp add: gs_final_def)
qed

theorem BuildGoodSuffixTable_reads_past_end_witness:
  "IsValid \<lparr>bytes = [0xAA], mask_v = [True]\<rparr>
   \<and> BuildGoodSuffixTable \<lparr>bytes = [0xAA], mask_v = [True]\<rparr> = Some ([1], [1])"
proof -
  have h: "IsValid \<lparr>bytes = [0xAA], mask_v = [True]\<rparr>"
    by (simp add: IsValid_def)
  from BuildGoodSuffixTable_reads_past_end [OF h] h show ?thesis
    by (simp add: Size_def)
qed

text \<open>
  Claim C1 asks that \<^verbatim>\<open>SimpleScanner::Scan\<close> and \<^verbatim>\<open>BoyerMooreScanner::Scan\<close> agree on every
  pattern without wildcards. The code does otherwise: for the pattern \<^verbatim>\<open>AA AA\<close> on the
  buffer \<^verbatim>\<open>BB AA AA\<close> the simple scanner finds offset 1, and the Boyer-Moore scanner,
  after the mismatch at position 0, shifts by the good-suffix entry 2 and reports
  not-found.
\<close>

theorem BoyerMoore_Scan_misses_match:
  "SimpleScanner_Scan \<lparr>bytes = [0xAA, 0xAA], mask_v = [True, True]\<rparr> (Some [0xBB, 0xAA, 0xAA]) 3 0
     = Some \<lparr>address = 1, offset = 1, found = True\<rparr>
   \<and> BoyerMoore_Scan \<lparr>bytes = [0xAA, 0xAA], mask_v = [True, True]\<rparr> (Some [0xBB, 0xAA, 0xAA]) 3 0
     = Some \<lparr>address = 0, offset = 0, found = False\<rparr>"
  by code_simp

theorem BoyerMoore_Scan_misses_match_witness:
  "BoyerMoore_Scan \<lparr>bytes = [0xAA, 0xAA], mask_v = [True, True]\<rparr> (Some [0xBB, 0xAA, 0xAA]) 3 0
     \<noteq> SimpleScanner_Scan \<lparr>bytes = [0xAA, 0xAA], mask_v = [True, True]\<rparr> (Some [0xBB, 0xAA, 0xAA]) 3 0"
  using BoyerMoore_Scan_misses_match by simp

text \<open>
  Claim C3 asks that \<^verbatim>\<open>BoyerMooreScanner::ScanAll\<close> returns every matching offset, and
  offsets 0 and 1 for \<^verbatim>\<open>AA AA\<close> on \<^verbatim>\<open>AA AA AA\<close>. The code does otherwise: after the match at
  offset 0 it advances by the good-suffix entry 2, past the match at offset 1, which the
  predicate and \<^verbatim>\<open>SimpleScanner::ScanAll\<close> both see.
\<close>

theorem BoyerMoore_ScanAll_misses_overlap:
  "BoyerMoore_ScanAll \<lparr>bytes = [0xAA, 0xAA], mask_v = [True, True]\<rparr> (Some [0xAA, 0xAA, 0xAA]) 3 0
     = Some [\<lparr>address = 0, offset = 0, found = True\<rparr>]
   \<and> match_at \<lparr>bytes = [0xAA, 0xAA], mask_v = [True, True]\<rparr> [0xAA, 0xAA, 0xAA] 0 \<and> match_at \<lparr>bytes = [0xAA, 0xAA], mask_v = [True, True]\<rparr> [0xAA, 0xAA, 0xAA] 1
   \<and> SimpleScanner_ScanAll \<lparr>bytes = [0xAA, 0xAA], mask_v = [True, True]\<rparr> (Some [0xAA, 0xAA, 0xAA]) 3 0
     = Some [\<lparr>address = 0, offset = 0, found = True\<rparr>, \<lparr>address = 1, offset = 1, found = True\<rparr>]"
  by code_simp

theorem BoyerMoore_ScanAll_misses_overlap_witness:
  "BoyerMoore_ScanAll \<lparr>bytes = [0xAA, 0xAA], mask_v = [True, True]\<rparr> (Some [0xAA, 0xAA, 0xAA]) 3 0
     \<noteq> SimpleScanner_ScanAll \<lparr>bytes = [0xAA, 0xAA], mask_v = [True, True]\<rparr> (Some [0xAA, 0xAA, 0xAA]) 3 0"
  using BoyerMoore_ScanAll_misses_overlap by simp

section \<open>Properties of the pattern strings\<close>

lemma stoul16_1FF: "stoul16 4294967295 ''1FF'' = Some 511"
  by (simp add: stoul16_def isspace_def isxdigit_def isdigit_def is_upper_hex_def
        is_lower_hex_def hexval_def Let_def)

lemma stoul16_1FF_64: "stoul16 18446744073709551615 ''1FF'' = Some 511"
  by (simp add: stoul16_def isspace_def isxdigit_def isdigit_def is_upper_hex_def
        is_lower_hex_def hexval_def Let_def)

lemma stoul16_4G: "stoul16 4294967295 ''4G'' = Some 4"
  by (simp add: stoul16_def isspace_def isxdigit_def isdigit_def is_upper_hex_def
        is_lower_hex_def hexval_def Let_def)

lemma tokens_of_1FF: "tokens_of ''1FF'' = [''1FF'']"
  by code_simp

lemma tokens_of_4G: "tokens_of ''4G'' = [''4G'']"
  by code_simp

lemma tokens_of_blank: "tokens_of '' '' = []"
  by code_simp

text \<open>
  Claim C2 asks that a token which is neither a wildcard nor a hexadecimal value from 0
  to 255 clears the pattern. The code does otherwise where \<^verbatim>\<open>stoul\<close> does not throw: the
  token \<^verbatim>\<open>1FF\<close> (511) is cut to the byte \<^verbatim>\<open>FF\<close>, and the token \<^verbatim>\<open>4G\<close> is read as 4 with the
  rest ignored; both patterns are valid, of size 1. (Here \<^verbatim>\<open>unsigned long\<close> has 32 bits;
  the last line is \<^verbatim>\<open>1FF\<close> with 64 bits.)
\<close>

theorem Pattern_of_string_keeps_bad_token:
  "tokens_of ''1FF'' = [''1FF''] \<and> \<not> spec_token_ok ''1FF''
   \<and> Pattern_of_string 4294967295 ''1FF'' = \<lparr>bytes = [0xFF], mask_v = [True]\<rparr>
   \<and> IsValid (Pattern_of_string 4294967295 ''1FF'')
   \<and> Size (Pattern_of_string 4294967295 ''1FF'') = 1
   \<and> tokens_of ''4G'' = [''4G''] \<and> \<not> spec_token_ok ''4G''
   \<and> Pattern_of_string 4294967295 ''4G'' = \<lparr>bytes = [0x04], mask_v = [True]\<rparr>
   \<and> IsValid (Pattern_of_string 4294967295 ''4G'')
   \<and> Size (Pattern_of_string 4294967295 ''4G'') = 1
   \<and> Pattern_of_string 18446744073709551615 ''1FF'' = \<lparr>bytes = [0xFF], mask_v = [True]\<rparr>"
proof -
  have s: "\<not> spec_token_ok ''1FF'' \<and> \<not> spec_token_ok ''4G''"
    by code_simp
  have a: "Pattern_of_string 4294967295 ''1FF'' = \<lparr>bytes = [0xFF], mask_v = [True]\<rparr>"
    by (simp add: Pattern_of_string_def tokens_of_1FF stoul16_1FF)
  have b: "Pattern_of_string 4294967295 ''4G'' = \<lparr>bytes = [0x04], mask_v = [True]\<rparr>"
    by (simp add: Pattern_of_string_def tokens_of_4G stoul16_4G)
  have c: "Pattern_of_string 18446744073709551615 ''1FF'' = \<lparr>bytes = [0xFF], mask_v = [True]\<rparr>"
    by (simp add: Pattern_of_string_def tokens_of_1FF stoul16_1FF_64)
  show ?thesis
    unfolding a b c using s by (simp add: tokens_of_1FF tokens_of_4G IsValid_def Size_def)
qed

theorem Pattern_of_string_keeps_bad_token_witness:
  "IsValid (Pattern_of_string 4294967295 ''1FF'')
   \<and> Size (Pattern_of_string 4294967295 ''1FF'') \<noteq> 0"
  using Pattern_of_string_keeps_bad_token by (simp add: IsValid_def Size_def)

text \<open>
  Claim C6 asks that \<^verbatim>\<open>IsValidPatternString\<close> accepts exactly the strings from which the
  constructor builds a valid pattern. The code does otherwise in both directions: the
  validator rejects \<^verbatim>\<open>1FF\<close>, from which the constructor builds a valid pattern, and it
  accepts a string of one blank, from which the constructor builds the empty pattern.
\<close>

theorem IsValidPatternString_differs_from_constructor:
  "\<not> IsValidPatternString 4294967295 ''1FF''
   \<and> IsValid (Pattern_of_string 4294967295 ''1FF'')
   \<and> IsValidPatternString 4294967295 '' ''
   \<and> \<not> IsValid (Pattern_of_string 4294967295 '' '')"
proof -
  have a: "Pattern_of_string 4294967295 ''1FF'' = \<lparr>bytes = [0xFF], mask_v = [True]\<rparr>"
    by (simp add: Pattern_of_string_def tokens_of_1FF stoul16_1FF)
  have b: "Pattern_of_string 4294967295 '' '' = \<lparr>bytes = [], mask_v = []\<rparr>"
    by (simp add: Pattern_of_string_def tokens_of_blank)
  have c: "\<not> IsValidPatternString 4294967295 ''1FF''"
    by (simp add: IsValidPatternString_def tokens_of_1FF stoul16_1FF isdigit_def
          is_upper_hex_def is_lower_hex_def)
  have d: "IsValidPatternString 4294967295 '' ''"
    by (simp add: IsValidPatternString_def tokens_of_blank)
  show ?thesis
    unfolding a b using c d by (simp add: IsValid_def)
qed

theorem IsValidPatternString_differs_from_constructor_witness:
  "IsValidPatternString 4294967295 ''1FF'' \<noteq> IsValid (Pattern_of_string 4294967295 ''1FF'')
   \<and> IsValidPatternString 4294967295 '' '' \<noteq> IsValid (Pattern_of_string 4294967295 '' '')"
  using IsValidPatternString_differs_from_constructor by simp

end
